theory Spec2Isabelle
  imports Main "HOL-Library.Word"
begin

section \<open>JavaScript values, exceptions and the network\<close>

text \<open>
  The values the program receives from parsed JSON bodies and passes around untyped.
  An object is the list of its own properties; a property read takes the first entry of
  that name.
\<close>

datatype jv =
    JUndefined
  | JNull
  | JBool bool
  | JNum int
  | JStr string
  | JArr "jv list"
  | JObj "(string \<times> jv) list"

text \<open>
  What the program can throw: \<open>new Error(msg)\<close> of the source itself, and the
  exceptions of the platform (a property read on \<open>null\<close> or \<open>undefined\<close>, a body that
  is not JSON, a request that fails on the network, a system call that fails).
\<close>

datatype js_error =
    Error string
  | TypeError
  | SyntaxError
  | NetworkError string
  | SystemError string

text \<open>Truthiness, as \<open>if (v)\<close>, \<open>!v\<close> and \<open>v || w\<close> read it.\<close>

fun truthy :: "jv \<Rightarrow> bool" where
  "truthy JUndefined = False"
| "truthy JNull = False"
| "truthy (JBool b) = b"
| "truthy (JNum n) = (n \<noteq> 0)"
| "truthy (JStr s) = (s \<noteq> [])"
| "truthy (JArr xs) = True"
| "truthy (JObj kvs) = True"

definition orElse :: "jv \<Rightarrow> jv \<Rightarrow> jv" where
  "orElse v w = (if truthy v then v else w)"

text \<open>
  \<open>v.k\<close>: a \<open>TypeError\<close> on \<open>null\<close> and \<open>undefined\<close>, the property of an object,
  \<open>undefined\<close> when the object has none of that name. The program reads no property
  that a number, a boolean, a string or an array has of its own, so these give
  \<open>undefined\<close>.
\<close>

fun getProp :: "jv \<Rightarrow> string \<Rightarrow> js_error + jv" where
  "getProp JUndefined k = Inl TypeError"
| "getProp JNull k = Inl TypeError"
| "getProp (JObj kvs) k = Inr (case map_of kvs k of None \<Rightarrow> JUndefined | Some v \<Rightarrow> v)"
| "getProp v k = Inr JUndefined"

text \<open>
  \<open>a === b\<close>. Primitives are compared by value; an object or an array is equal only to
  itself, and two values that come from two different parses are never the same object.
\<close>

fun strictEq :: "jv \<Rightarrow> jv \<Rightarrow> bool" where
  "strictEq JUndefined JUndefined = True"
| "strictEq JNull JNull = True"
| "strictEq (JBool a) (JBool b) = (a = b)"
| "strictEq (JNum a) (JNum b) = (a = b)"
| "strictEq (JStr a) (JStr b) = (a = b)"
| "strictEq a b = False"

text \<open>A natural number in a template literal: its decimal digits.\<close>

fun decimal :: "nat \<Rightarrow> string" where
  "decimal n =
     (if n < 10 then [char_of (48 + n)]
      else decimal (n div 10) @ [char_of (48 + n mod 10)])"

text \<open>
  \<open>`${v}`\<close>, the string conversion of a value: a string is itself, an integer is its
  digits with the sign, an array is its elements joined by commas (with nothing for
  \<open>null\<close> and \<open>undefined\<close>), and an object is \<open>[object Object]\<close>.
\<close>

fun template :: "jv \<Rightarrow> string" and templateElements :: "jv list \<Rightarrow> string" where
  "template JUndefined = ''undefined''"
| "template JNull = ''null''"
| "template (JBool b) = (if b then ''true'' else ''false'')"
| "template (JNum n) = (if n < 0 then CHR ''-'' # decimal (nat (- n)) else decimal (nat n))"
| "template (JStr s) = s"
| "template (JArr xs) = templateElements xs"
| "template (JObj kvs) = ''[object Object]''"
| "templateElements [] = []"
| "templateElements (x # xs) =
     (case x of JUndefined \<Rightarrow> [] | JNull \<Rightarrow> [] | _ \<Rightarrow> template x)
     @ (case xs of [] \<Rightarrow> [] | _ \<Rightarrow> CHR '','' # templateElements xs)"

record request =
  reqUrl :: string
  httpMethod :: string
  headers :: "(string \<times> string) list"
  form :: "(string \<times> string) list"
  payload :: "jv option"

text \<open>
  A response: \<open>response.ok\<close>, \<open>response.status\<close>, what \<open>response.text()\<close> yields and
  what \<open>response.json()\<close> yields (\<open>None\<close> when the body is not JSON and the call
  throws).
\<close>

record response =
  ok :: bool
  status :: nat
  bodyText :: string
  bodyJson :: "jv option"

type_synonym fetch = "request \<Rightarrow> js_error + response"

section \<open>oauth.js: constants\<close>

definition GOOGLE_CLIENT_ID :: string where
  "GOOGLE_CLIENT_ID = ''1071006060591-tmhssin2h21lcre235vtolojh4g403ep.apps.googleusercontent.com''"

definition GOOGLE_CLIENT_SECRET :: string where
  "GOOGLE_CLIENT_SECRET = ''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''"

definition GOOGLE_AUTH_URL :: string where
  "GOOGLE_AUTH_URL = ''https://accounts.google.com/o/oauth2/v2/auth''"

definition GOOGLE_TOKEN_URL :: string where
  "GOOGLE_TOKEN_URL = ''https://oauth2.googleapis.com/token''"

definition GOOGLE_USERINFO_URL :: string where
  "GOOGLE_USERINFO_URL = ''https://www.googleapis.com/oauth2/v1/userinfo''"

definition CALLBACK_PORT :: string where
  "CALLBACK_PORT = ''51121''"

definition REDIRECT_URI :: string where
  "REDIRECT_URI = ''http://localhost:'' @ CALLBACK_PORT @ ''/oauth-callback''"

definition SCOPES :: string where
  "SCOPES = ''https://www.googleapis.com/auth/cloud-platform'' @ '' '' @
            ''https://www.googleapis.com/auth/userinfo.email'' @ '' '' @
            ''https://www.googleapis.com/auth/userinfo.profile'' @ '' '' @
            ''https://www.googleapis.com/auth/cclog'' @ '' '' @
            ''https://www.googleapis.com/auth/experimentsandconfigs''"

section \<open>oauth.js: the token client\<close>

text \<open>The two requests to the token endpoint, with their form-encoded bodies.\<close>

definition exchangeRequest :: "string \<Rightarrow> string \<Rightarrow> request" where
  "exchangeRequest code verifier =
     \<lparr> reqUrl = GOOGLE_TOKEN_URL, httpMethod = ''POST'',
       headers = [(''Content-Type'', ''application/x-www-form-urlencoded'')],
       form = [(''client_id'', GOOGLE_CLIENT_ID),
               (''client_secret'', GOOGLE_CLIENT_SECRET),
               (''code'', code),
               (''code_verifier'', verifier),
               (''grant_type'', ''authorization_code''),
               (''redirect_uri'', REDIRECT_URI)],
       payload = None \<rparr>"

definition refreshRequest :: "string \<Rightarrow> request" where
  "refreshRequest refreshToken =
     \<lparr> reqUrl = GOOGLE_TOKEN_URL, httpMethod = ''POST'',
       headers = [(''Content-Type'', ''application/x-www-form-urlencoded'')],
       form = [(''client_id'', GOOGLE_CLIENT_ID),
               (''client_secret'', GOOGLE_CLIENT_SECRET),
               (''refresh_token'', refreshToken),
               (''grant_type'', ''refresh_token'')],
       payload = None \<rparr>"

definition exchangeCode :: "fetch \<Rightarrow> string \<Rightarrow> string \<Rightarrow> js_error + jv" where
  "exchangeCode fetch code verifier =
     (case fetch (exchangeRequest code verifier) of
        Inl e \<Rightarrow> Inl e
      | Inr response \<Rightarrow>
          if \<not> ok response then Inl (Error (''Token exchange failed: '' @ bodyText response))
          else (case bodyJson response of
                  None \<Rightarrow> Inl SyntaxError
                | Some tokens \<Rightarrow>
                    (case getProp tokens ''access_token'' of
                       Inl e \<Rightarrow> Inl e
                     | Inr access_token \<Rightarrow>
                         if \<not> truthy access_token then Inl (Error ''No access token received'')
                         else (case getProp tokens ''refresh_token'' of
                                 Inl e \<Rightarrow> Inl e
                               | Inr refresh_token \<Rightarrow>
                                   (case getProp tokens ''expires_in'' of
                                      Inl e \<Rightarrow> Inl e
                                    | Inr expires_in \<Rightarrow>
                                        Inr (JObj [(''accessToken'', access_token),
                                                   (''refreshToken'', refresh_token),
                                                   (''expiresIn'', expires_in)]))))))"

definition refreshAccessToken :: "fetch \<Rightarrow> string \<Rightarrow> js_error + jv" where
  "refreshAccessToken fetch refreshToken =
     (case fetch (refreshRequest refreshToken) of
        Inl e \<Rightarrow> Inl e
      | Inr response \<Rightarrow>
          if \<not> ok response then Inl (Error (''Token refresh failed: '' @ bodyText response))
          else (case bodyJson response of
                  None \<Rightarrow> Inl SyntaxError
                | Some tokens \<Rightarrow>
                    (case getProp tokens ''access_token'' of
                       Inl e \<Rightarrow> Inl e
                     | Inr access_token \<Rightarrow>
                         (case getProp tokens ''expires_in'' of
                            Inl e \<Rightarrow> Inl e
                          | Inr expires_in \<Rightarrow>
                              Inr (JObj [(''accessToken'', access_token),
                                         (''expiresIn'', expires_in)])))))"

section \<open>oauth.js: the identity resolver\<close>

definition userinfoRequest :: "jv \<Rightarrow> request" where
  "userinfoRequest accessToken =
     \<lparr> reqUrl = GOOGLE_USERINFO_URL, httpMethod = ''GET'',
       headers = [(''Authorization'', ''Bearer '' @ template accessToken)],
       form = [], payload = None \<rparr>"

definition getUserEmail :: "fetch \<Rightarrow> jv \<Rightarrow> js_error + jv" where
  "getUserEmail fetch accessToken =
     (case fetch (userinfoRequest accessToken) of
        Inl e \<Rightarrow> Inl e
      | Inr response \<Rightarrow>
          if \<not> ok response
          then Inl (Error (''Failed to get user info: '' @ decimal (status response)))
          else (case bodyJson response of
                  None \<Rightarrow> Inl SyntaxError
                | Some userInfo \<Rightarrow> getProp userInfo ''email''))"

text \<open>
  \<open>ANTIGRAVITY_ENDPOINT_FALLBACKS\<close> and \<open>ANTIGRAVITY_HEADERS\<close> come from
  \<open>constants.js\<close>; the functions below take them as the parameters \<open>endpoints\<close> and
  \<open>hdrs\<close>.
\<close>

definition discoveryRequest :: "(string \<times> string) list \<Rightarrow> jv \<Rightarrow> string \<Rightarrow> request" where
  "discoveryRequest hdrs accessToken endpoint =
     \<lparr> reqUrl = endpoint @ ''/v1internal:loadCodeAssist'', httpMethod = ''POST'',
       headers = [(''Authorization'', ''Bearer '' @ template accessToken),
                  (''Content-Type'', ''application/json'')] @ hdrs,
       form = [],
       payload = Some (JObj [(''metadata'',
                   JObj [(''ideType'', JStr ''IDE_UNSPECIFIED''),
                         (''platform'', JStr ''PLATFORM_UNSPECIFIED''),
                         (''pluginType'', JStr ''GEMINI'')])]) \<rparr>"

text \<open>\<open>typeof v === 'string'\<close>\<close>

fun isString :: "jv \<Rightarrow> bool" where
  "isString (JStr s) = True"
| "isString v = False"

text \<open>\<open>v?.id\<close>: \<open>undefined\<close> when \<open>v\<close> is \<open>null\<close> or \<open>undefined\<close>, else \<open>v.id\<close>.\<close>

fun optionalId :: "jv \<Rightarrow> jv" where
  "optionalId JUndefined = JUndefined"
| "optionalId JNull = JUndefined"
| "optionalId v = (case getProp v ''id'' of Inl e \<Rightarrow> JUndefined | Inr i \<Rightarrow> i)"

text \<open>
  The body of the \<open>try\<close> block of \<open>discoverProjectId\<close> for one endpoint: \<open>Inl\<close> is an
  exception (which the \<open>catch\<close> swallows), \<open>Inr (Some v)\<close> is \<open>return v\<close>, and
  \<open>Inr None\<close> is the \<open>continue\<close> or the fall through to the next iteration.
\<close>

definition discoverAt :: "fetch \<Rightarrow> (string \<times> string) list \<Rightarrow> jv \<Rightarrow> string \<Rightarrow> js_error + jv option" where
  "discoverAt fetch hdrs accessToken endpoint =
     (case fetch (discoveryRequest hdrs accessToken endpoint) of
        Inl e \<Rightarrow> Inl e
      | Inr response \<Rightarrow>
          if \<not> ok response then Inr None
          else (case bodyJson response of
                  None \<Rightarrow> Inl SyntaxError
                | Some data \<Rightarrow>
                    (case getProp data ''cloudaicompanionProject'' of
                       Inl e \<Rightarrow> Inl e
                     | Inr project \<Rightarrow>
                         if isString project then Inr (Some project)
                         else if truthy (optionalId project) then Inr (Some (optionalId project))
                         else Inr None)))"

fun discoverProjectId :: "fetch \<Rightarrow> (string \<times> string) list \<Rightarrow> string list \<Rightarrow> jv \<Rightarrow> jv" where
  "discoverProjectId fetch hdrs [] accessToken = JNull"
| "discoverProjectId fetch hdrs (endpoint # rest) accessToken =
     (case discoverAt fetch hdrs accessToken endpoint of
        Inr (Some projectId) \<Rightarrow> projectId
      | Inr None \<Rightarrow> discoverProjectId fetch hdrs rest accessToken
      | Inl e \<Rightarrow> discoverProjectId fetch hdrs rest accessToken)"

definition completeOAuthFlow ::
  "fetch \<Rightarrow> (string \<times> string) list \<Rightarrow> string list \<Rightarrow> string \<Rightarrow> string \<Rightarrow> js_error + jv" where
  "completeOAuthFlow fetch hdrs endpoints code verifier =
     (case exchangeCode fetch code verifier of
        Inl e \<Rightarrow> Inl e
      | Inr tokens \<Rightarrow>
          (case getProp tokens ''accessToken'' of
             Inl e \<Rightarrow> Inl e
           | Inr accessToken \<Rightarrow>
               (case getUserEmail fetch accessToken of
                  Inl e \<Rightarrow> Inl e
                | Inr email \<Rightarrow>
                    (case getProp tokens ''refreshToken'' of
                       Inl e \<Rightarrow> Inl e
                     | Inr refreshToken \<Rightarrow>
                         Inr (JObj [(''email'', email),
                                    (''refreshToken'', refreshToken),
                                    (''accessToken'', accessToken),
                                    (''projectId'',
                                       discoverProjectId fetch hdrs endpoints accessToken)])))))"

section \<open>oauth.js: the callback listener\<close>

text \<open>
  A request as the handler sees it after \<open>new URL(req.url, ...)\<close>: the path and the
  query parameters in their order. \<open>searchParams.get(k)\<close> is the first value of that
  name, or \<open>null\<close>.
\<close>

record http_request =
  pathname :: string
  searchParams :: "(string \<times> string) list"

definition searchGet :: "http_request \<Rightarrow> string \<Rightarrow> jv" where
  "searchGet req k = (case map_of (searchParams req) k of None \<Rightarrow> JNull | Some v \<Rightarrow> JStr v)"

datatype outcome = Resolved jv | Rejected js_error

text \<open>
  The state of one call of \<open>startCallbackServer\<close>: the server (whether it accepts
  connections, how often \<open>server.close()\<close> was called, the replies it wrote), the
  promise (its settled value, if any, and how often \<open>resolve\<close> or \<open>reject\<close> was called)
  and the timer of \<open>setTimeout\<close>, which the source never clears.
\<close>

record listener =
  listening :: bool
  closeCalls :: nat
  settled :: "outcome option"
  settleCalls :: nat
  timerPending :: bool
  replies :: "(nat \<times> string) list"

text \<open>\<open>server.close()\<close>\<close>

definition serverClose :: "listener \<Rightarrow> listener" where
  "serverClose st = st\<lparr> listening := False, closeCalls := Suc (closeCalls st) \<rparr>"

text \<open>
  \<open>resolve(v)\<close> and \<open>reject(e)\<close> of a promise: the first call settles it, a later
  call changes nothing.
\<close>

definition settle :: "outcome \<Rightarrow> listener \<Rightarrow> listener" where
  "settle oc st =
     st\<lparr> settled := (case settled st of None \<Rightarrow> Some oc | Some previous \<Rightarrow> Some previous),
         settleCalls := Suc (settleCalls st) \<rparr>"

text \<open>\<open>res.writeHead(code); res.end(page)\<close>, the page named by its message.\<close>

definition reply :: "nat \<Rightarrow> string \<Rightarrow> listener \<Rightarrow> listener" where
  "reply code page st = st\<lparr> replies := replies st @ [(code, page)] \<rparr>"

text \<open>The request handler given to \<open>http.createServer\<close>.\<close>

definition handler :: "jv \<Rightarrow> http_request \<Rightarrow> listener \<Rightarrow> listener" where
  "handler expectedState req st =
     (if pathname req \<noteq> ''/oauth-callback'' then reply 404 ''Not found'' st
      else let code = searchGet req ''code'';
               state = searchGet req ''state'';
               error = searchGet req ''error''
           in if truthy error
              then settle (Rejected (Error (''OAuth error: '' @ template error)))
                     (serverClose (reply 400 (''Error: '' @ template error) st))
              else if \<not> strictEq state expectedState
              then settle (Rejected (Error ''State mismatch''))
                     (serverClose (reply 400 ''State mismatch - possible CSRF attack.'' st))
              else if \<not> truthy code
              then settle (Rejected (Error ''No authorization code''))
                     (serverClose (reply 400 ''No authorization code received.'' st))
              else settle (Resolved code)
                     (serverClose (reply 200 ''Authentication Successful!'' st)))"

text \<open>The callback of \<open>setTimeout\<close>.\<close>

definition onTimeout :: "listener \<Rightarrow> listener" where
  "onTimeout st =
     settle (Rejected (Error ''OAuth callback timeout - no response received''))
       (serverClose st)"

text \<open>The handler of the server's \<open>error\<close> event, given \<open>err.code\<close>.\<close>

definition onServerError :: "string \<Rightarrow> listener \<Rightarrow> listener" where
  "onServerError errCode st =
     (if errCode = ''EADDRINUSE''
      then settle (Rejected (Error (''Port '' @ CALLBACK_PORT @
             '' is already in use. Close any other OAuth flows and try again.''))) st
      else settle (Rejected (SystemError errCode)) st)"

text \<open>
  What \<open>server.listen\<close> comes to: the port is bound, or the server emits \<open>error\<close>.
\<close>

datatype listen_result = Bound | ListenError string

text \<open>
  The state when the executor of the promise has run and \<open>listen\<close> has come to its
  result: the timer is armed in both cases.
\<close>

definition startCallbackServer :: "jv \<Rightarrow> listen_result \<Rightarrow> listener" where
  "startCallbackServer expectedState bind =
     (let st = \<lparr> listening = False, closeCalls = 0, settled = None, settleCalls = 0,
                 timerPending = True, replies = [] \<rparr>
      in case bind of
           Bound \<Rightarrow> st\<lparr> listening := True \<rparr>
         | ListenError errCode \<Rightarrow> onServerError errCode st)"

text \<open>
  What the event loop runs afterwards: the handler for a request the server delivers,
  and the timer's callback, once. The model does not assume that a closed server
  delivers no request (a connection kept alive from before still can), so the handler
  runs on every request event.
\<close>

datatype event = Request http_request | TimerFired

fun step :: "jv \<Rightarrow> listener \<Rightarrow> event \<Rightarrow> listener" where
  "step expectedState st (Request req) = handler expectedState req st"
| "step expectedState st TimerFired =
     (if timerPending st then onTimeout (st\<lparr> timerPending := False \<rparr>) else st)"

definition run :: "jv \<Rightarrow> listener \<Rightarrow> event list \<Rightarrow> listener" where
  "run expectedState st evs = foldl (step expectedState) st evs"

section \<open>Bytes, randomness and the encodings of the platform\<close>

type_synonym byte = "8 word"

text \<open>
  The secure random source is a stream of bytes; \<open>crypto.randomBytes(n)\<close> takes the
  next \<open>n\<close> of them and leaves the rest.
\<close>

type_synonym entropy = "nat \<Rightarrow> byte"

definition randomBytes :: "nat \<Rightarrow> entropy \<Rightarrow> byte list \<times> entropy" where
  "randomBytes n src = (map src [0..<n], \<lambda>i. src (n + i))"

text \<open>
  \<open>buf.toString('base64url')\<close>: the alphabet of RFC 4648, section 5, three bytes to
  four characters, and no padding after a last group of one or two bytes.
\<close>

definition base64urlAlphabet :: string where
  "base64urlAlphabet =
     ''ABCDEFGHIJKLMNOPQRSTUVWXYZabcdefghijklmnopqrstuvwxyz0123456789-_''"

definition sextet :: "nat \<Rightarrow> char" where
  "sextet n = base64urlAlphabet ! n"

fun base64url :: "byte list \<Rightarrow> string" where
  "base64url [] = []"
| "base64url [a] =
     [sextet (unat a div 4), sextet ((unat a mod 4) * 16)]"
| "base64url [a, b] =
     [sextet (unat a div 4), sextet ((unat a mod 4) * 16 + unat b div 16),
      sextet ((unat b mod 16) * 4)]"
| "base64url (a # b # c # rest) =
     [sextet (unat a div 4), sextet ((unat a mod 4) * 16 + unat b div 16),
      sextet ((unat b mod 16) * 4 + unat c div 64), sextet (unat c mod 64)]
     @ base64url rest"

text \<open>\<open>buf.toString('hex')\<close>: two lower-case digits a byte.\<close>

definition hexDigit :: "nat \<Rightarrow> char" where
  "hexDigit n = ''0123456789abcdef'' ! n"

definition hex :: "byte list \<Rightarrow> string" where
  "hex bs = concat (map (\<lambda>b. [hexDigit (unat b div 16), hexDigit (unat b mod 16)]) bs)"

text \<open>
  The bytes \<open>hash.update(s)\<close> feeds to the hash: the UTF-8 encoding of the string,
  which a \<open>string\<close> of HOL already is.
\<close>

definition utf8 :: "string \<Rightarrow> byte list" where
  "utf8 s = map (\<lambda>c. of_nat (of_char c)) s"

text \<open>
  \<open>URLSearchParams.prototype.toString\<close>: the application/x-www-form-urlencoded
  serialiser. Letters, digits and \<open>*-._\<close> stand for themselves, a space becomes \<open>+\<close>,
  any other byte becomes \<open>%\<close> and two upper-case hexadecimal digits; names and values
  are joined by \<open>=\<close>, and the pairs by \<open>&\<close>.
\<close>

definition isAlnum :: "char \<Rightarrow> bool" where
  "isAlnum c =
     (let n = (of_char c :: nat)
      in (48 \<le> n \<and> n \<le> 57) \<or> (65 \<le> n \<and> n \<le> 90) \<or> (97 \<le> n \<and> n \<le> 122))"

definition unreserved :: "char \<Rightarrow> bool" where
  "unreserved c = (isAlnum c \<or> c = CHR ''*'' \<or> c = CHR ''-'' \<or> c = CHR ''.'' \<or> c = CHR ''_'')"

definition upperHexDigit :: "nat \<Rightarrow> char" where
  "upperHexDigit n = ''0123456789ABCDEF'' ! n"

definition urlencodeChar :: "char \<Rightarrow> string" where
  "urlencodeChar c =
     (if c = CHR '' '' then ''+''
      else if unreserved c then [c]
      else [CHR ''%'', upperHexDigit ((of_char c :: nat) div 16),
            upperHexDigit ((of_char c :: nat) mod 16)])"

definition urlencode :: "string \<Rightarrow> string" where
  "urlencode s = concat (map urlencodeChar s)"

fun joinWith :: "char \<Rightarrow> string list \<Rightarrow> string" where
  "joinWith sep [] = []"
| "joinWith sep [x] = x"
| "joinWith sep (x # y # ys) = x @ sep # joinWith sep (y # ys)"

definition searchParamsToString :: "(string \<times> string) list \<Rightarrow> string" where
  "searchParamsToString params =
     joinWith (CHR ''&'') (map (\<lambda>(k, v). urlencode k @ CHR ''='' # urlencode v) params)"

section \<open>oauth.js: the PKCE generator and the authorization URL builder\<close>

text \<open>
  \<open>generatePKCE\<close>, given SHA-256 (\<open>crypto.createHash('sha256')\<close>, a function from
  bytes to the 32 bytes of the digest) and the random source. It returns the pair
  \<open>(verifier, challenge)\<close> and the random source that is left.
\<close>

definition generatePKCE :: "(byte list \<Rightarrow> byte list) \<Rightarrow> entropy \<Rightarrow> (string \<times> string) \<times> entropy" where
  "generatePKCE sha256 src =
     (let (bytes, src') = randomBytes 32 src;
          verifier = base64url bytes;
          challenge = base64url (sha256 (utf8 verifier))
      in ((verifier, challenge), src'))"

record authorization =
  url :: string
  verifier :: string
  state :: string

definition authorizationParams :: "string \<Rightarrow> string \<Rightarrow> (string \<times> string) list" where
  "authorizationParams challenge st =
     [(''client_id'', GOOGLE_CLIENT_ID),
      (''redirect_uri'', REDIRECT_URI),
      (''response_type'', ''code''),
      (''scope'', SCOPES),
      (''access_type'', ''offline''),
      (''prompt'', ''consent''),
      (''code_challenge'', challenge),
      (''code_challenge_method'', ''S256''),
      (''state'', st)]"

definition getAuthorizationUrl :: "(byte list \<Rightarrow> byte list) \<Rightarrow> entropy \<Rightarrow> authorization \<times> entropy" where
  "getAuthorizationUrl sha256 src =
     (let ((v, challenge), src') = generatePKCE sha256 src;
          (stateBytes, src'') = randomBytes 16 src';
          st = hex stateBytes
      in (\<lparr> url = GOOGLE_AUTH_URL @ ''?'' @ searchParamsToString (authorizationParams challenge st),
            verifier = v,
            state = st \<rparr>, src''))"

section \<open>accounts-cli.js: the account store\<close>

definition MAX_ACCOUNTS :: nat where
  "MAX_ACCOUNTS = 10"

text \<open>
  An account object of the ledger, by the properties the program reads and writes. A
  property the object does not have is \<open>undefined\<close>.
\<close>

record account =
  email :: jv
  source :: jv
  refreshToken :: jv
  projectId :: jv
  addedAt :: jv
  lastUsed :: jv
  isRateLimited :: jv
  rateLimitResetTime :: jv

text \<open>
  The store file by what \<open>JSON.parse\<close> makes of its text. \<open>AccountsFalsy\<close> is a parsed
  value other than \<open>null\<close> whose \<open>accounts\<close> is absent or falsy; a truthy \<open>accounts\<close>
  is taken to be an array of objects, the shape \<open>saveAccounts\<close> writes.
\<close>

datatype accounts_field = AccountsFalsy | AccountsArray "account list"

record config =
  accounts :: accounts_field
  settings :: "(string \<times> jv) list"
  activeIndex :: jv

text \<open>
  The content of a file by what \<open>JSON.parse\<close> makes of its text: text that is not
  JSON, the JSON text \<open>null\<close>, or a JSON value.
\<close>

datatype file_content = NotJson | JsonNull | Json config

text \<open>
  What lies at a path: a directory, or a file with what this process may do with it
  (may it read the file, may it write the file) and its content.
\<close>

datatype entry = Directory | File bool bool file_content

text \<open>
  The file system: what lies at each path, and whether the system lets the process
  create a new entry at a path (the parent can be written, the volume is not
  read-only, there is room).
\<close>

record fs =
  files :: "string \<Rightarrow> entry option"
  creatable :: "string \<Rightarrow> bool"

text \<open>\<open>path.dirname\<close> for the paths used here: what stands before the last slash.\<close>

definition dirname :: "string \<Rightarrow> string" where
  "dirname p =
     (if CHR ''/'' \<notin> set p then ''.''
      else let d = rev (tl (dropWhile (\<lambda>c. c \<noteq> CHR ''/'') (rev p)))
           in if d = [] then ''/'' else d)"

text \<open>
  The calls of \<open>fs\<close> the program makes. \<open>readFileSync\<close> throws on a path that is
  absent, a directory, or a file the process may not read. \<open>mkdirSync\<close> with
  \<open>recursive\<close> leaves a directory that is there, and throws when a file is in the way
  or the directory cannot be created; of the directories it makes, only the one named
  is recorded. \<open>writeFileSync\<close> replaces the content of a file the process may write
  and creates a file that is absent; it throws on a directory, on a file the process
  may not write, and when the file cannot be created.
\<close>

definition existsSync :: "fs \<Rightarrow> string \<Rightarrow> bool" where
  "existsSync disk p = (files disk p \<noteq> None)"

definition readFileSync :: "fs \<Rightarrow> string \<Rightarrow> js_error + file_content" where
  "readFileSync disk p =
     (case files disk p of
        None \<Rightarrow> Inl (SystemError ''ENOENT'')
      | Some Directory \<Rightarrow> Inl (SystemError ''EISDIR'')
      | Some (File r w c) \<Rightarrow> if r then Inr c else Inl (SystemError ''EACCES''))"

definition mkdirSync :: "string \<Rightarrow> fs \<Rightarrow> js_error + fs" where
  "mkdirSync dir disk =
     (case files disk dir of
        Some Directory \<Rightarrow> Inr disk
      | Some (File r w c) \<Rightarrow> Inl (SystemError ''EEXIST'')
      | None \<Rightarrow>
          if creatable disk dir then Inr (disk\<lparr> files := (files disk)(dir \<mapsto> Directory) \<rparr>)
          else Inl (SystemError ''EACCES''))"

definition writeFileSync :: "string \<Rightarrow> file_content \<Rightarrow> fs \<Rightarrow> js_error + fs" where
  "writeFileSync p c disk =
     (case files disk p of
        Some Directory \<Rightarrow> Inl (SystemError ''EISDIR'')
      | Some (File r w old) \<Rightarrow>
          if w then Inr (disk\<lparr> files := (files disk)(p \<mapsto> File r w c) \<rparr>)
          else Inl (SystemError ''EACCES'')
      | None \<Rightarrow>
          (case files disk (dirname p) of
             None \<Rightarrow> Inl (SystemError ''ENOENT'')
           | Some (File r w old) \<Rightarrow> Inl (SystemError ''ENOTDIR'')
           | Some Directory \<Rightarrow>
               if creatable disk p
               then Inr (disk\<lparr> files := (files disk)(p \<mapsto> File True True c) \<rparr>)
               else Inl (SystemError ''EACCES'')))"

text \<open>
  \<open>ACCOUNT_CONFIG_PATH\<close> comes from \<open>constants.js\<close>; the functions take it as the
  parameter \<open>cfgPath\<close>.

  The \<open>try\<close> block of \<open>loadAccounts\<close>: \<open>Inl\<close> is an exception, \<open>Inr (Some xs)\<close> is
  \<open>return xs\<close>, and \<open>Inr None\<close> leaves the block without a return.
\<close>

definition loadAccountsTry :: "string \<Rightarrow> fs \<Rightarrow> js_error + account list option" where
  "loadAccountsTry cfgPath disk =
     (if existsSync disk cfgPath
      then (case readFileSync disk cfgPath of
              Inl e \<Rightarrow> Inl e
            | Inr NotJson \<Rightarrow> Inl SyntaxError
            | Inr JsonNull \<Rightarrow> Inl TypeError
            | Inr (Json cfg) \<Rightarrow>
                (case accounts cfg of
                   AccountsFalsy \<Rightarrow> Inr (Some [])
                 | AccountsArray xs \<Rightarrow> Inr (Some xs)))
      else Inr None)"

text \<open>
  \<open>loadAccounts\<close> calls \<open>existsSync\<close> and \<open>readFileSync\<close> only; the file system it
  leaves is the one it found.
\<close>

definition loadAccounts :: "string \<Rightarrow> fs \<Rightarrow> account list \<times> fs" where
  "loadAccounts cfgPath disk =
     (case loadAccountsTry cfgPath disk of
        Inr (Some xs) \<Rightarrow> (xs, disk)
      | Inr None \<Rightarrow> ([], disk)
      | Inl e \<Rightarrow> ([], disk))"

text \<open>The object \<open>saveAccounts\<close> writes for one account.\<close>

definition savedAccount :: "string \<Rightarrow> account \<Rightarrow> account" where
  "savedAccount now acc =
     \<lparr> email = email acc,
       source = JStr ''oauth'',
       refreshToken = refreshToken acc,
       projectId = projectId acc,
       addedAt = orElse (addedAt acc) (JStr now),
       lastUsed = orElse (lastUsed acc) JNull,
       isRateLimited = orElse (isRateLimited acc) (JBool False),
       rateLimitResetTime = orElse (rateLimitResetTime acc) JNull \<rparr>"

text \<open>\<open>{ cooldownDurationMs: 60000, maxRetries: 5, ...settings }\<close>\<close>

definition spread :: "(string \<times> jv) list \<Rightarrow> (string \<times> jv) list \<Rightarrow> (string \<times> jv) list" where
  "spread defaults given =
     map (\<lambda>(k, v). (k, case map_of given k of None \<Rightarrow> v | Some w \<Rightarrow> w)) defaults
     @ filter (\<lambda>(k, v). map_of defaults k = None) given"

text \<open>
  \<open>saveAccounts(accounts, settings)\<close> at the time \<open>now\<close>: it makes the directory if
  nothing is there and writes the whole file; what either call throws is rethrown.
\<close>

definition saveAccounts :: "string \<Rightarrow> account list \<Rightarrow> (string \<times> jv) list \<Rightarrow> string \<Rightarrow> fs \<Rightarrow> js_error + fs" where
  "saveAccounts cfgPath accs given now disk =
     (let dir = dirname cfgPath
      in case (if \<not> existsSync disk dir then mkdirSync dir disk else Inr disk) of
           Inl e \<Rightarrow> Inl e
         | Inr disk' \<Rightarrow>
             writeFileSync cfgPath
               (Json \<lparr> accounts = AccountsArray (map (savedAccount now) accs),
                       settings = spread [(''cooldownDurationMs'', JNum 60000),
                                          (''maxRetries'', JNum 5)] given,
                       activeIndex = JNum 0 \<rparr>)
               disk')"

section \<open>accounts-cli.js: adding accounts\<close>

text \<open>
  What one call of \<open>addAccount\<close> meets: SHA-256 and the random source, how \<open>listen\<close>
  ends and the events of the callback listener, the network, the constants of
  \<open>constants.js\<close>, and the time of \<open>new Date().toISOString()\<close>.
\<close>

record flow =
  flowSha256 :: "byte list \<Rightarrow> byte list"
  flowEntropy :: entropy
  flowBind :: listen_result
  flowEvents :: "event list"
  flowFetch :: fetch
  flowHdrs :: "(string \<times> string) list"
  flowEndpoints :: "string list"
  flowNow :: string

text \<open>
  \<open>existing.f = v\<close> on the object \<open>find\<close> returned: the first element the predicate
  holds of is changed where it stands.
\<close>

fun updateFirst :: "('a \<Rightarrow> bool) \<Rightarrow> ('a \<Rightarrow> 'a) \<Rightarrow> 'a list \<Rightarrow> 'a list" where
  "updateFirst P f [] = []"
| "updateFirst P f (x # xs) = (if P x then f x # xs else x # updateFirst P f xs)"

text \<open>
  \<open>addAccount\<close> from the check for an existing account on (the part after
  \<open>completeOAuthFlow\<close> has returned \<open>result\<close>): the ledger as it is afterwards and the
  value returned, \<open>None\<close> for \<open>null\<close>.
\<close>

definition addAccountResult :: "account list \<Rightarrow> jv \<Rightarrow> string \<Rightarrow> js_error + account list \<times> account option" where
  "addAccountResult existingAccounts result now =
     (case getProp result ''email'' of
        Inl e \<Rightarrow> Inl e
      | Inr resultEmail \<Rightarrow>
     (case getProp result ''refreshToken'' of
        Inl e \<Rightarrow> Inl e
      | Inr resultRefreshToken \<Rightarrow>
     (case getProp result ''projectId'' of
        Inl e \<Rightarrow> Inl e
      | Inr resultProjectId \<Rightarrow>
          (case List.find (\<lambda>a. strictEq (email a) resultEmail) existingAccounts of
             Some existing \<Rightarrow>
               Inr (updateFirst (\<lambda>a. strictEq (email a) resultEmail)
                      (\<lambda>a. a\<lparr> refreshToken := resultRefreshToken,
                               projectId := resultProjectId,
                               addedAt := JStr now \<rparr>) existingAccounts,
                    None)
           | None \<Rightarrow>
               Inr (existingAccounts,
                    Some \<lparr> email = resultEmail,
                           source = JUndefined,
                           refreshToken = resultRefreshToken,
                           projectId = resultProjectId,
                           addedAt = JStr now,
                           lastUsed = JUndefined,
                           isRateLimited = JBool False,
                           rateLimitResetTime = JNull \<rparr>)))))"

text \<open>
  The result of \<open>addAccount\<close>: the ledger as the call leaves it, the value returned,
  and the calls of \<open>completeOAuthFlow\<close> it made, by their arguments.
\<close>

record added =
  ledger :: "account list"
  returned :: "account option"
  oauthCalls :: "(string \<times> string) list"

text \<open>
  \<open>addAccount(existingAccounts)\<close>. \<open>None\<close>: the promise of the callback listener is
  never settled by the events given, and the \<open>await\<close> does not return. Every exception
  after the listener has started is caught, and \<open>null\<close> is returned.
\<close>

definition addAccount :: "account list \<Rightarrow> flow \<Rightarrow> added option" where
  "addAccount existingAccounts env =
     (let (auth, src') = getAuthorizationUrl (flowSha256 env) (flowEntropy env);
          final = run (JStr (state auth))
                    (startCallbackServer (JStr (state auth)) (flowBind env)) (flowEvents env)
      in case settled final of
           None \<Rightarrow> None
         | Some (Rejected e) \<Rightarrow>
             Some \<lparr> ledger = existingAccounts, returned = None, oauthCalls = [] \<rparr>
         | Some (Resolved code) \<Rightarrow>
             (case completeOAuthFlow (flowFetch env) (flowHdrs env) (flowEndpoints env)
                     (template code) (verifier auth) of
                Inl e \<Rightarrow>
                  Some \<lparr> ledger = existingAccounts, returned = None,
                         oauthCalls = [(template code, verifier auth)] \<rparr>
              | Inr result \<Rightarrow>
                  (case addAccountResult existingAccounts result (flowNow env) of
                     Inl e \<Rightarrow>
                       Some \<lparr> ledger = existingAccounts, returned = None,
                              oauthCalls = [(template code, verifier auth)] \<rparr>
                   | Inr (accounts', newAccount) \<Rightarrow>
                       Some \<lparr> ledger = accounts', returned = newAccount,
                              oauthCalls = [(template code, verifier auth)] \<rparr>)))"

text \<open>\<open>s.toLowerCase()\<close> on the letters of ASCII.\<close>

definition toLowerCase :: "string \<Rightarrow> string" where
  "toLowerCase s =
     map (\<lambda>c. let n = (of_char c :: nat)
               in if 65 \<le> n \<and> n \<le> 90 then char_of (n + 32) else c) s"

text \<open>
  How far a function that waits for input gets on the input given: it returns, it
  throws, or it waits for input that is not there (with the state it waits in).
\<close>

datatype 'a progress = Returned 'a | Thrown js_error | Waiting 'a

text \<open>
  One turn of the loop of \<open>interactiveAdd\<close> meets a call of \<open>addAccount\<close>, the time at
  which \<open>saveAccounts\<close> runs, and the answer to \<open>Add another account?\<close>.
\<close>

record turn =
  turnFlow :: flow
  turnSaveTime :: string
  turnAnswer :: string

text \<open>
  The \<open>while\<close> loop of \<open>interactiveAdd\<close> on the ledger \<open>accs\<close> and the file system
  \<open>disk\<close>, for the turns given.
\<close>

fun addLoop :: "string \<Rightarrow> account list \<Rightarrow> fs \<Rightarrow> turn list \<Rightarrow> (account list \<times> fs) progress" where
  "addLoop cfgPath accs disk ts =
     (if \<not> length accs < MAX_ACCOUNTS then Returned (accs, disk)
      else case ts of
        [] \<Rightarrow> Waiting (accs, disk)
      | t # rest \<Rightarrow>
          (case addAccount accs (turnFlow t) of
             None \<Rightarrow> Waiting (accs, disk)
           | Some r \<Rightarrow>
               let accs' = (case returned r of
                              Some newAccount \<Rightarrow> ledger r @ [newAccount]
                            | None \<Rightarrow> ledger r);
                   saved = (if returned r \<noteq> None \<or> length accs' > 0
                            then saveAccounts cfgPath accs' [] (turnSaveTime t) disk
                            else Inr disk)
               in case saved of
                    Inl e \<Rightarrow> Thrown e
                  | Inr disk' \<Rightarrow>
                      if length accs' \<ge> MAX_ACCOUNTS then Returned (accs', disk')
                      else if toLowerCase (turnAnswer t) \<noteq> ''y'' then Returned (accs', disk')
                      else addLoop cfgPath accs' disk' rest))"

text \<open>
  \<open>interactiveAdd\<close>, with the answer to the first question (asked only of a ledger
  that is not empty) and the turns of the loop.
\<close>

definition interactiveAdd :: "string \<Rightarrow> fs \<Rightarrow> string \<Rightarrow> turn list \<Rightarrow> (account list \<times> fs) progress" where
  "interactiveAdd cfgPath disk choice ts =
     (let (loaded, disk') = loadAccounts cfgPath disk;
          accs = (if length loaded > 0 \<and> toLowerCase choice = ''f'' then [] else loaded)
      in addLoop cfgPath accs disk' ts)"

section \<open>Project discovery as the specification words it\<close>

text \<open>
  What one endpoint contributes to \<open>discoverProjectId\<close> once the \<open>catch\<close> has
  swallowed an exception: a project id, or nothing.
\<close>

definition projectAt :: "fetch \<Rightarrow> (string \<times> string) list \<Rightarrow> jv \<Rightarrow> string \<Rightarrow> jv option" where
  "projectAt fetch hdrs accessToken endpoint =
     (case discoverAt fetch hdrs accessToken endpoint of
        Inr (Some found) \<Rightarrow> Some found
      | Inr None \<Rightarrow> None
      | Inl e \<Rightarrow> None)"

text \<open>
  The specification's discovery, for comparison: a candidate that throws or returns a
  status that is not a success is skipped; the first candidate that returns a success
  status is used, and the project id is read from its body, from the string field
  first and from the nested object's \<open>id\<close> second; \<open>null\<close> when every candidate fails.
\<close>

definition succeeded :: "fetch \<Rightarrow> (string \<times> string) list \<Rightarrow> jv \<Rightarrow> string \<Rightarrow> bool" where
  "succeeded fetch hdrs accessToken endpoint =
     (case fetch (discoveryRequest hdrs accessToken endpoint) of
        Inl e \<Rightarrow> False
      | Inr response \<Rightarrow> ok response)"

definition readProjectId :: "js_error + response \<Rightarrow> jv" where
  "readProjectId fetched =
     (case fetched of
        Inl e \<Rightarrow> JNull
      | Inr response \<Rightarrow>
          (case bodyJson response of
             None \<Rightarrow> JNull
           | Some data \<Rightarrow>
               (case getProp data ''cloudaicompanionProject'' of
                  Inl e \<Rightarrow> JNull
                | Inr project \<Rightarrow>
                    if isString project then project
                    else if truthy (optionalId project) then optionalId project
                    else JNull)))"

definition specDiscoverProjectId :: "fetch \<Rightarrow> (string \<times> string) list \<Rightarrow> string list \<Rightarrow> jv \<Rightarrow> jv" where
  "specDiscoverProjectId fetch hdrs endpoints accessToken =
     (case List.find (succeeded fetch hdrs accessToken) endpoints of
        None \<Rightarrow> JNull
      | Some endpoint \<Rightarrow> readProjectId (fetch (discoveryRequest hdrs accessToken endpoint)))"

text \<open>
  A network of two endpoints: the first answers with a success status and a body that
  names no project, the second with a body that names one.
\<close>

definition twoEndpoints :: fetch where
  "twoEndpoints q =
     (if reqUrl q = ''https://a.example/v1internal:loadCodeAssist''
      then Inr \<lparr> ok = True, status = 200, bodyText = [], bodyJson = Some (JObj []) \<rparr>
      else Inr \<lparr> ok = True, status = 200, bodyText = [],
                 bodyJson = Some (JObj [(''cloudaicompanionProject'', JStr ''proj-2'')]) \<rparr>)"

text \<open>
  A network of three endpoints: the first two answer with the status 500, the third
  with a body that names the project \<open>proj-123\<close>.
\<close>

definition threeEndpoints :: fetch where
  "threeEndpoints q =
     (if reqUrl q = ''https://c.example/v1internal:loadCodeAssist''
      then Inr \<lparr> ok = True, status = 200, bodyText = [],
                 bodyJson = Some (JObj [(''cloudaicompanionProject'', JStr ''proj-123'')]) \<rparr>
      else Inr \<lparr> ok = False, status = 500, bodyText = ''Internal error'', bodyJson = None \<rparr>)"


section \<open>Events of the callback listener\<close>

text \<open>
  A request on the callback path: the handler answers every such request with a call
  of \<open>server.close()\<close> and a call of \<open>resolve\<close> or \<open>reject\<close>.
\<close>

fun isCallback :: "event \<Rightarrow> bool" where
  "isCallback (Request req) = (pathname req = ''/oauth-callback'')"
| "isCallback TimerFired = False"

text \<open>
  A callback that carries the issued state and a code, for a flow whose issued state
  is \<open>s-1\<close>.
\<close>

definition goodCallback :: http_request where
  "goodCallback = \<lparr> pathname = ''/oauth-callback'',
                    searchParams = [(''state'', ''s-1''), (''code'', ''c-1'')] \<rparr>"

text \<open>The state that \<open>addAccount\<close> issues with the authorization URL of a flow.\<close>

definition issuedState :: "flow \<Rightarrow> string" where
  "issuedState env = state (fst (getAuthorizationUrl (flowSha256 env) (flowEntropy env)))"

text \<open>
  A flow in which the browser comes back with a state that was not issued: the port is
  bound, and the one request carries the state \<open>forged\<close> and a code.
\<close>

definition forgedCallback :: http_request where
  "forgedCallback = \<lparr> pathname = ''/oauth-callback'',
                      searchParams = [(''state'', ''forged''), (''code'', ''c-1'')] \<rparr>"

definition forgedFlow :: flow where
  "forgedFlow = \<lparr> flowSha256 = (\<lambda>bs. []), flowEntropy = (\<lambda>i. 0), flowBind = Bound,
                  flowEvents = [Request forgedCallback, TimerFired],
                  flowFetch = (\<lambda>q. Inl (NetworkError ''unreachable'')),
                  flowHdrs = [], flowEndpoints = [], flowNow = ''2025-01-01T00:00:00.000Z'' \<rparr>"

section \<open>Ledgers and results used as examples\<close>

definition sampleAccount :: "string \<Rightarrow> account" where
  "sampleAccount e =
     \<lparr> email = JStr e, source = JStr ''oauth'', refreshToken = JStr (''rt-'' @ e),
       projectId = JStr ''proj-old'', addedAt = JStr ''2024-06-01T00:00:00.000Z'',
       lastUsed = JNum 1717200000000, isRateLimited = JBool True,
       rateLimitResetTime = JNum 1717203600000 \<rparr>"

definition sampleResult :: "string \<Rightarrow> jv" where
  "sampleResult e =
     JObj [(''email'', JStr e), (''refreshToken'', JStr ''rt-new''),
           (''accessToken'', JStr ''at-new''), (''projectId'', JNull)]"

definition nineAccounts :: "account list" where
  "nineAccounts = map sampleAccount
     [''a@example.com'', ''b@example.com'', ''c@example.com'', ''d@example.com'',
      ''e@example.com'', ''f@example.com'', ''g@example.com'', ''h@example.com'',
      ''i@example.com'']"

definition tenAccounts :: "account list" where
  "tenAccounts = nineAccounts @ [sampleAccount ''j@example.com'']"

definition storePath :: string where
  "storePath = ''/home/u/.config/antigravity-proxy/accounts.json''"

definition diskWith :: "account list \<Rightarrow> fs" where
  "diskWith accs =
     \<lparr> files = [''/home/u/.config/antigravity-proxy'' \<mapsto> Directory,
                storePath \<mapsto> File True True
                  (Json \<lparr> accounts = AccountsArray accs,
                          settings = [(''cooldownDurationMs'', JNum 60000),
                                      (''maxRetries'', JNum 5)],
                          activeIndex = JNum 0 \<rparr>)],
       creatable = (\<lambda>p. True) \<rparr>"

text \<open>
  A turn in which the user signs in as \<open>k@example.com\<close>, an email the ledger of
  \<open>tenAccounts\<close> does not have: the callback carries the issued state and a code, the
  token endpoint and the userinfo endpoint answer, and the user declines to add more.
\<close>

definition eleventhFetch :: fetch where
  "eleventhFetch q =
     (if reqUrl q = GOOGLE_TOKEN_URL
      then Inr \<lparr> ok = True, status = 200, bodyText = [],
                 bodyJson = Some (JObj [(''access_token'', JStr ''at-11''),
                                        (''refresh_token'', JStr ''rt-11''),
                                        (''expires_in'', JNum 3599)]) \<rparr>
      else if reqUrl q = GOOGLE_USERINFO_URL
      then Inr \<lparr> ok = True, status = 200, bodyText = [],
                 bodyJson = Some (JObj [(''email'', JStr ''k@example.com'')]) \<rparr>
      else Inl (NetworkError ''unreachable''))"

definition eleventhTurn :: turn where
  "eleventhTurn =
     \<lparr> turnFlow =
         \<lparr> flowSha256 = (\<lambda>bs. []), flowEntropy = (\<lambda>i. 0), flowBind = Bound,
           flowEvents = [Request \<lparr> pathname = ''/oauth-callback'',
                                   searchParams = [(''state'', ''00000000000000000000000000000000''),
                                                   (''code'', ''c-11'')] \<rparr>,
                         TimerFired],
           flowFetch = eleventhFetch, flowHdrs = [], flowEndpoints = [],
           flowNow = ''2025-01-01T00:00:00.000Z'' \<rparr>,
       turnSaveTime = ''2025-01-01T00:00:01.000Z'',
       turnAnswer = ''n'' \<rparr>"

text \<open>The record that this turn adds to a ledger without that email.\<close>

definition eleventhAccount :: account where
  "eleventhAccount =
     \<lparr> email = JStr ''k@example.com'', source = JUndefined,
       refreshToken = JStr ''rt-11'', projectId = JNull,
       addedAt = JStr ''2025-01-01T00:00:00.000Z'',
       lastUsed = JUndefined, isRateLimited = JBool False,
       rateLimitResetTime = JNull \<rparr>"

text \<open>
  The same sign-in with a second request on the callback path after the first: the
  first carries the issued state and a code, the second the state \<open>forged\<close>.
\<close>

definition lateForgedFlow :: flow where
  "lateForgedFlow =
     \<lparr> flowSha256 = (\<lambda>bs. []), flowEntropy = (\<lambda>i. 0), flowBind = Bound,
       flowEvents = [Request \<lparr> pathname = ''/oauth-callback'',
                               searchParams = [(''state'', ''00000000000000000000000000000000''),
                                               (''code'', ''c-11'')] \<rparr>,
                     Request forgedCallback,
                     TimerFired],
       flowFetch = eleventhFetch, flowHdrs = [], flowEndpoints = [],
       flowNow = ''2025-01-01T00:00:00.000Z'' \<rparr>"

section \<open>Reading the query of a URL\<close>

text \<open>
  What a URL contains as query parameters, for stating what the builder emits: the
  text after the first \<open>?\<close>, cut at every \<open>&\<close>, each piece cut at its first \<open>=\<close>.
  \<open>queryParam u k\<close> is the value, as it is written in the URL, of the first parameter
  named \<open>k\<close>.
\<close>

fun splitOn :: "char \<Rightarrow> string \<Rightarrow> string list" where
  "splitOn sep [] = [[]]"
| "splitOn sep (c # cs) =
     (if c = sep then [] # splitOn sep cs
      else (case splitOn sep cs of [] \<Rightarrow> [[c]] | seg # segs \<Rightarrow> (c # seg) # segs))"

definition queryString :: "string \<Rightarrow> string" where
  "queryString u = drop 1 (dropWhile (\<lambda>c. c \<noteq> CHR ''?'') u)"

definition nameValue :: "string \<Rightarrow> string \<times> string" where
  "nameValue seg =
     (takeWhile (\<lambda>c. c \<noteq> CHR ''='') seg, drop 1 (dropWhile (\<lambda>c. c \<noteq> CHR ''='') seg))"

definition queryParam :: "string \<Rightarrow> string \<Rightarrow> string option" where
  "queryParam u k = map_of (map nameValue (splitOn (CHR ''&'') (queryString u))) k"

section \<open>Store files used as examples\<close>

text \<open>
  A store that exists and yields no ledger: the path is a directory or a file the
  process may not read, or the file is not JSON, is the JSON \<open>null\<close>, or parses to a
  value without a (truthy) \<open>accounts\<close>.
\<close>

fun unparsed :: "file_content \<Rightarrow> bool" where
  "unparsed NotJson = True"
| "unparsed JsonNull = True"
| "unparsed (Json cfg) = (accounts cfg = AccountsFalsy)"

fun corrupt :: "entry \<Rightarrow> bool" where
  "corrupt Directory = True"
| "corrupt (File r w c) = (\<not> r \<or> unparsed c)"

text \<open>
  A file system in which a ledger of ten accounts lies at another path, an older
  location of the store, and nothing at the store's path.
\<close>

definition legacyPath :: string where
  "legacyPath = ''/home/u/antigravity-proxy/accounts.json''"

definition legacyDisk :: fs where
  "legacyDisk =
     \<lparr> files = [''/home/u/antigravity-proxy'' \<mapsto> Directory,
                legacyPath \<mapsto> File True True
                  (Json \<lparr> accounts = AccountsArray tenAccounts,
                          settings = [], activeIndex = JNum 0 \<rparr>)],
       creatable = (\<lambda>p. True) \<rparr>"

text \<open>A file system whose store file is not JSON and may be read and written.\<close>

definition brokenDisk :: fs where
  "brokenDisk =
     \<lparr> files = [''/home/u/.config/antigravity-proxy'' \<mapsto> Directory,
                storePath \<mapsto> File True True NotJson],
       creatable = (\<lambda>p. True) \<rparr>"

text \<open>
  Two file systems whose store cannot be read: in the first the store file may be
  neither read nor written by the process, in the second a directory lies at the
  store's path.
\<close>

definition lockedDisk :: fs where
  "lockedDisk =
     \<lparr> files = [''/home/u/.config/antigravity-proxy'' \<mapsto> Directory,
                storePath \<mapsto> File False False NotJson],
       creatable = (\<lambda>p. True) \<rparr>"

definition directoryDisk :: fs where
  "directoryDisk =
     \<lparr> files = [''/home/u/.config/antigravity-proxy'' \<mapsto> Directory,
                storePath \<mapsto> Directory],
       creatable = (\<lambda>p. True) \<rparr>"

section \<open>The token client: what a refresh returns\<close>

text \<open>
  C9. A refresh that succeeds returns an object with exactly the two properties
  \<open>accessToken\<close> and \<open>expiresIn\<close>, read from \<open>access_token\<close> and \<open>expires_in\<close> of the
  provider's body, whatever else the body holds (a \<open>refresh_token\<close> too); on a status
  that is not a success the refresh fails with the error \<open>Token refresh failed:\<close>
  followed by the provider's body.
\<close>

theorem refreshAccessToken_result:
  "fetch (refreshRequest rt) = Inr resp \<Longrightarrow>
     (\<not> ok resp \<longrightarrow>
        refreshAccessToken fetch rt = Inl (Error (''Token refresh failed: '' @ bodyText resp))) \<and>
     (refreshAccessToken fetch rt = Inr r \<longrightarrow>
        ok resp \<and>
        (\<exists>tokens a e. bodyJson resp = Some tokens \<and>
            getProp tokens ''access_token'' = Inr a \<and>
            getProp tokens ''expires_in'' = Inr e \<and>
            r = JObj [(''accessToken'', a), (''expiresIn'', e)]) \<and>
        getProp r ''refreshToken'' = Inr JUndefined)"
  by (auto simp: refreshAccessToken_def split: option.splits sum.splits)

theorem refreshAccessToken_result_witness:
  "refreshAccessToken
     (\<lambda>q. Inr \<lparr> ok = True, status = 200, bodyText = [],
                 bodyJson = Some (JObj [(''access_token'', JStr ''at-1''),
                                        (''refresh_token'', JStr ''rt-2''),
                                        (''expires_in'', JNum 3599)]) \<rparr>) ''rt-1''
     = Inr (JObj [(''accessToken'', JStr ''at-1''), (''expiresIn'', JNum 3599)]) \<and>
   getProp (JObj [(''accessToken'', JStr ''at-1''), (''expiresIn'', JNum 3599)]) ''refreshToken''
     = Inr JUndefined \<and>
   refreshAccessToken
     (\<lambda>q. Inr \<lparr> ok = False, status = 400, bodyText = ''invalid_grant'', bodyJson = None \<rparr>)
     ''rt-1''
     = Inl (Error ''Token refresh failed: invalid_grant'')"
proof -
  let ?good = "\<lparr> ok = True, status = 200, bodyText = [],
                 bodyJson = Some (JObj [(''access_token'', JStr ''at-1''),
                                        (''refresh_token'', JStr ''rt-2''),
                                        (''expires_in'', JNum 3599)]) \<rparr>"
  let ?bad = "\<lparr> ok = False, status = 400, bodyText = ''invalid_grant'', bodyJson = None \<rparr>"
  have run: "refreshAccessToken (\<lambda>q. Inr ?good) ''rt-1''
               = Inr (JObj [(''accessToken'', JStr ''at-1''), (''expiresIn'', JNum 3599)])"
    by (simp add: refreshAccessToken_def)
  have a: "getProp (JObj [(''accessToken'', JStr ''at-1''), (''expiresIn'', JNum 3599)])
             ''refreshToken'' = Inr JUndefined"
    using refreshAccessToken_result
      [of "\<lambda>q. Inr ?good" "''rt-1''" ?good
          "JObj [(''accessToken'', JStr ''at-1''), (''expiresIn'', JNum 3599)]"] run
    by simp
  have b: "refreshAccessToken (\<lambda>q. Inr ?bad) ''rt-1''
             = Inl (Error ''Token refresh failed: invalid_grant'')"
    using refreshAccessToken_result [of "\<lambda>q. Inr ?bad" "''rt-1''" ?bad undefined]
    by simp
  from run a b show ?thesis by simp
qed

section \<open>Project discovery\<close>

lemma projectAt_iff:
  "projectAt fetch hdrs tok e = Some p \<longleftrightarrow>
     (\<exists>resp data proj.
        fetch (discoveryRequest hdrs tok e) = Inr resp \<and> ok resp \<and>
        bodyJson resp = Some data \<and>
        getProp data ''cloudaicompanionProject'' = Inr proj \<and>
        (if isString proj then p = proj else truthy (optionalId proj) \<and> p = optionalId proj))"
  by (auto simp: projectAt_def discoverAt_def split: sum.splits option.splits if_splits)

lemma discoverProjectId_map_filter:
  "discoverProjectId fetch hdrs eps tok =
     (case List.map_filter (projectAt fetch hdrs tok) eps of [] \<Rightarrow> JNull | p # ps \<Rightarrow> p)"
  by (induction eps)
     (auto simp: List.map_filter_simps projectAt_def split: sum.splits option.splits)

text \<open>
  C6, as the code has it. Discovery returns the project id of the first endpoint, in
  the order of the list, whose attempt yields one, and \<open>null\<close> when none does; it
  never throws. An attempt yields a project id exactly when the request returns a
  success status, the body is JSON, and its \<open>cloudaicompanionProject\<close> is a string
  (which is then the id) or else has a truthy \<open>id\<close> (which is then the id). Every
  other endpoint is passed over: one whose request throws, one that returns another
  status, and also one that returns a success status with no project id in its body.
\<close>

theorem discoverProjectId_first_yield:
  "discoverProjectId fetch hdrs eps tok =
     (case List.map_filter (projectAt fetch hdrs tok) eps of [] \<Rightarrow> JNull | p # ps \<Rightarrow> p) \<and>
   (projectAt fetch hdrs tok e = Some p \<longleftrightarrow>
     (\<exists>resp data proj.
        fetch (discoveryRequest hdrs tok e) = Inr resp \<and> ok resp \<and>
        bodyJson resp = Some data \<and>
        getProp data ''cloudaicompanionProject'' = Inr proj \<and>
        (if isString proj then p = proj else truthy (optionalId proj) \<and> p = optionalId proj)))"
  using projectAt_iff [of fetch hdrs tok e p] discoverProjectId_map_filter [of fetch hdrs eps tok]
  by blast

theorem discoverProjectId_first_yield_witness:
  "discoverProjectId threeEndpoints []
     [''https://a.example'', ''https://b.example'', ''https://c.example''] (JStr ''t'')
     = JStr ''proj-123'' \<and>
   projectAt threeEndpoints [] (JStr ''t'') ''https://a.example'' = None \<and>
   projectAt threeEndpoints [] (JStr ''t'') ''https://c.example'' = Some (JStr ''proj-123'')"
proof -
  have a: "projectAt threeEndpoints [] (JStr ''t'') ''https://a.example'' = None"
    and b: "projectAt threeEndpoints [] (JStr ''t'') ''https://b.example'' = None"
    and c: "projectAt threeEndpoints [] (JStr ''t'') ''https://c.example''
              = Some (JStr ''proj-123'')"
    by (simp_all add: projectAt_def discoverAt_def discoveryRequest_def threeEndpoints_def)
  have "discoverProjectId threeEndpoints []
          [''https://a.example'', ''https://b.example'', ''https://c.example''] (JStr ''t'')
          = JStr ''proj-123''"
    using discoverProjectId_first_yield
      [of threeEndpoints "[]"
          "[''https://a.example'', ''https://b.example'', ''https://c.example'']" "JStr ''t''"]
    by (simp add: List.map_filter_simps a b c)
  with a c show ?thesis by simp
qed

text \<open>
  The claim as the specification words it fails where the first endpoint answers with
  a success status and a body that names no project, and the second names one: the
  code goes on to the second endpoint, the specification's discovery stops at the
  first.
\<close>

theorem discoverProjectId_counterexample:
  "discoverProjectId twoEndpoints [] [''https://a.example'', ''https://b.example''] (JStr ''t'')
     = JStr ''proj-2'' \<and>
   specDiscoverProjectId twoEndpoints [] [''https://a.example'', ''https://b.example''] (JStr ''t'')
     = JNull"
  by (simp add: twoEndpoints_def discoverAt_def discoveryRequest_def specDiscoverProjectId_def
        succeeded_def readProjectId_def)

section \<open>The callback listener\<close>

lemma settled_settle:
  "settled (settle oc st) = (case settled st of None \<Rightarrow> Some oc | Some previous \<Rightarrow> Some previous)"
  by (simp add: settle_def)

lemma settled_serverClose [simp]: "settled (serverClose st) = settled st"
  by (simp add: serverClose_def)

lemma settled_reply [simp]: "settled (reply c p st) = settled st"
  by (simp add: reply_def)

lemma settled_step_stable:
  "settled st = Some oc \<Longrightarrow> settled (step es st ev) = Some oc"
  by (cases ev) (simp_all add: handler_def onTimeout_def settled_settle Let_def)

lemma settled_run_stable:
  "settled st = Some oc \<Longrightarrow> settled (run es st evs) = Some oc"
  unfolding run_def
  by (induction evs arbitrary: st) (simp_all add: settled_step_stable)

lemma run_append: "run es st (xs @ ys) = run es (run es st xs) ys"
  by (simp add: run_def)

lemma run_Cons: "run es st (ev # evs) = run es (step es st ev) evs"
  by (simp add: run_def)

lemma run_Nil: "run es st [] = st"
  by (simp add: run_def)

lemma timerPending_handler [simp]: "timerPending (handler es req st) = timerPending st"
  by (simp add: handler_def settle_def serverClose_def reply_def Let_def)

lemma closeCalls_handler:
  "closeCalls (handler es req st) =
     closeCalls st + (if pathname req = ''/oauth-callback'' then 1 else 0)"
  by (simp add: handler_def settle_def serverClose_def reply_def Let_def)

lemma settleCalls_handler:
  "settleCalls (handler es req st) =
     settleCalls st + (if pathname req = ''/oauth-callback'' then 1 else 0)"
  by (simp add: handler_def settle_def serverClose_def reply_def Let_def)

lemma timerPending_run:
  "timerPending (run es st evs) = (timerPending st \<and> TimerFired \<notin> set evs)"
proof (induction evs arbitrary: st)
  case Nil
  show ?case by (simp add: run_Nil)
next
  case (Cons ev evs)
  show ?case
    by (cases ev)
       (auto simp: run_Cons Cons.IH onTimeout_def settle_def serverClose_def)
qed

lemma closeCalls_run:
  "closeCalls (run es st evs) =
     closeCalls st + length (filter isCallback evs)
       + (if timerPending st \<and> TimerFired \<in> set evs then 1 else 0)"
proof (induction evs arbitrary: st)
  case Nil
  show ?case by (simp add: run_Nil)
next
  case (Cons ev evs)
  show ?case
    by (cases ev)
       (auto simp: run_Cons Cons.IH closeCalls_handler onTimeout_def settle_def serverClose_def)
qed

lemma settleCalls_run:
  "settleCalls (run es st evs) =
     settleCalls st + length (filter isCallback evs)
       + (if timerPending st \<and> TimerFired \<in> set evs then 1 else 0)"
proof (induction evs arbitrary: st)
  case Nil
  show ?case by (simp add: run_Nil)
next
  case (Cons ev evs)
  show ?case
    by (cases ev)
       (auto simp: run_Cons Cons.IH settleCalls_handler onTimeout_def settle_def serverClose_def)
qed

lemma settled_or_pending_run:
  "timerPending st \<or> settled st \<noteq> None \<Longrightarrow>
     timerPending (run es st evs) \<or> settled (run es st evs) \<noteq> None"
proof (induction evs arbitrary: st)
  case Nil
  then show ?case by (simp add: run_Nil)
next
  case (Cons ev evs)
  have "timerPending (step es st ev) \<or> settled (step es st ev) \<noteq> None"
  proof (cases "settled st")
    case None
    with Cons.prems have "timerPending st" by simp
    then show ?thesis
      by (cases ev) (simp_all add: onTimeout_def settled_settle split: option.splits)
  next
    case (Some oc)
    then show ?thesis by (simp add: settled_step_stable)
  qed
  then have "timerPending (run es (step es st ev) evs) \<or>
             settled (run es (step es st ev) evs) \<noteq> None"
    by (rule Cons.IH)
  then show ?case
    by (simp only: run_Cons)
qed

lemma startCallbackServer_fields:
  "timerPending (startCallbackServer es b)" "closeCalls (startCallbackServer es b) = 0"
  by (cases b; simp add: startCallbackServer_def onServerError_def settle_def Let_def)+

lemma quiet_run:
  "list_all (\<lambda>e. \<not> isCallback e \<and> e \<noteq> TimerFired) pre \<Longrightarrow>
     settled (run es st pre) = settled st \<and> timerPending (run es st pre) = timerPending st"
proof (induction pre arbitrary: st)
  case Nil
  show ?case by (simp add: run_Nil)
next
  case (Cons ev pre)
  then show ?case
    by (cases ev) (simp_all add: run_Cons handler_def reply_def)
qed

lemma settled_step_cong:
  "settled st = settled st' \<Longrightarrow> timerPending st = timerPending st' \<Longrightarrow>
     settled (step es st ev) = settled (step es st' ev)"
  by (cases ev) (simp_all add: handler_def onTimeout_def settled_settle Let_def)

lemma settled_after_timer:
  "timerPending st \<or> settled st \<noteq> None \<Longrightarrow> TimerFired \<in> set evs \<Longrightarrow>
     settled (run es st evs) \<noteq> None"
  using settled_or_pending_run [of st es evs] timerPending_run [of es st evs]
  by simp

text \<open>
  C1, as the code has it. In every run of the callback listener the promise is settled
  by one outcome only: the outcome it has once it is settled stays whatever fires
  later, the first of the callback requests and the timer decides it when the port was
  bound, and once the timer has fired the promise is settled. The loser of the race is
  not suppressed, though: the timer is never cleared and the handler is not guarded, so
  \<open>server.close()\<close> is called once for every request on the callback path and once more
  when the timer fires; the promise ignores the later \<open>resolve\<close> or \<open>reject\<close>.
\<close>

theorem callback_listener_settles_once:
  "(settled (run es (startCallbackServer es b) evs) = Some oc \<longrightarrow>
      settled (run es (startCallbackServer es b) (evs @ later)) = Some oc) \<and>
   (list_all (\<lambda>e. \<not> isCallback e \<and> e \<noteq> TimerFired) evs \<and> (isCallback ev \<or> ev = TimerFired) \<longrightarrow>
      settled (run es (startCallbackServer es Bound) (evs @ ev # later))
        = settled (step es (startCallbackServer es Bound) ev) \<and>
      settled (step es (startCallbackServer es Bound) ev) \<noteq> None) \<and>
   (TimerFired \<in> set evs \<longrightarrow> settled (run es (startCallbackServer es b) evs) \<noteq> None) \<and>
   closeCalls (run es (startCallbackServer es b) evs)
     = length (filter isCallback evs) + (if TimerFired \<in> set evs then 1 else 0)"
proof (intro conjI impI)
  assume "settled (run es (startCallbackServer es b) evs) = Some oc"
  then show "settled (run es (startCallbackServer es b) (evs @ later)) = Some oc"
    by (simp add: run_append settled_run_stable)
next
  assume a: "list_all (\<lambda>e. \<not> isCallback e \<and> e \<noteq> TimerFired) evs \<and>
             (isCallback ev \<or> ev = TimerFired)"
  let ?s0 = "startCallbackServer es Bound"
  have q: "settled (run es ?s0 evs) = settled ?s0"
          "timerPending (run es ?s0 evs) = timerPending ?s0"
    using a quiet_run [of evs es ?s0] by simp_all
  have s: "settled (step es (run es ?s0 evs) ev) = settled (step es ?s0 ev)"
    using q by (rule settled_step_cong)
  show t: "settled (step es ?s0 ev) \<noteq> None"
  proof (cases ev)
    case (Request req)
    with a show ?thesis
      by (simp add: handler_def settled_settle Let_def split: option.splits)
  next
    case TimerFired
    then show ?thesis
      by (simp add: startCallbackServer_def onTimeout_def settled_settle split: option.splits)
  qed
  then obtain oc' where oc': "settled (step es ?s0 ev) = Some oc'"
    by blast
  have "settled (run es ?s0 (evs @ ev # later)) = Some oc'"
    using s oc' by (simp add: run_append run_Cons settled_run_stable)
  with oc' show "settled (run es ?s0 (evs @ ev # later)) = settled (step es ?s0 ev)"
    by simp
next
  assume "TimerFired \<in> set evs"
  then show "settled (run es (startCallbackServer es b) evs) \<noteq> None"
    using settled_after_timer [of "startCallbackServer es b" evs es]
    by (simp add: startCallbackServer_fields)
next
  show "closeCalls (run es (startCallbackServer es b) evs)
          = length (filter isCallback evs) + (if TimerFired \<in> set evs then 1 else 0)"
    by (simp add: closeCalls_run startCallbackServer_fields)
qed

theorem callback_listener_settles_once_witness:
  "settled (run (JStr ''s-1'') (startCallbackServer (JStr ''s-1'') Bound)
              ([Request goodCallback] @ [TimerFired]))
     = Some (Resolved (JStr ''c-1'')) \<and>
   settled (run (JStr ''s-1'') (startCallbackServer (JStr ''s-1'') Bound)
              ([] @ TimerFired # [Request goodCallback]))
     = Some (Rejected (Error ''OAuth callback timeout - no response received'')) \<and>
   closeCalls (run (JStr ''s-1'') (startCallbackServer (JStr ''s-1'') Bound)
                 [Request goodCallback]) = 1"
proof -
  let ?s0 = "startCallbackServer (JStr ''s-1'') Bound"
  have first: "settled (run (JStr ''s-1'') ?s0 [Request goodCallback])
                 = Some (Resolved (JStr ''c-1''))"
    by (simp add: run_def startCallbackServer_def handler_def goodCallback_def searchGet_def
          settle_def serverClose_def reply_def)
  have timer: "settled (step (JStr ''s-1'') ?s0 TimerFired)
                 = Some (Rejected (Error ''OAuth callback timeout - no response received''))"
    by (simp add: startCallbackServer_def onTimeout_def settle_def serverClose_def)
  note inst1 = callback_listener_settles_once
    [where es = "JStr ''s-1''" and b = Bound and evs = "[Request goodCallback]"
       and oc = "Resolved (JStr ''c-1'')" and later = "[TimerFired]"]
  note inst2 = callback_listener_settles_once
    [where es = "JStr ''s-1''" and b = Bound and evs = "[]" and ev = TimerFired
       and later = "[Request goodCallback]"]
  have a: "settled (run (JStr ''s-1'') ?s0 ([Request goodCallback] @ [TimerFired]))
             = Some (Resolved (JStr ''c-1''))"
    using inst1 first by blast
  have b: "settled (run (JStr ''s-1'') ?s0 ([] @ TimerFired # [Request goodCallback]))
             = Some (Rejected (Error ''OAuth callback timeout - no response received''))"
    using inst2 timer by simp
  have c: "closeCalls (run (JStr ''s-1'') ?s0 [Request goodCallback]) = 1"
    using inst1 by (simp add: goodCallback_def)
  from a b c show ?thesis by blast
qed

text \<open>
  The claim as stated fails when the callback wins the race: the timer fires later all
  the same, \<open>server.close()\<close> is called a second time and \<open>reject\<close> is called on the
  promise that the callback resolved.
\<close>

theorem callback_listener_counterexample:
  "closeCalls (run (JStr ''s-1'') (startCallbackServer (JStr ''s-1'') Bound)
                 [Request goodCallback, TimerFired]) = 2 \<and>
   settleCalls (run (JStr ''s-1'') (startCallbackServer (JStr ''s-1'') Bound)
                  [Request goodCallback, TimerFired]) = 2 \<and>
   settled (run (JStr ''s-1'') (startCallbackServer (JStr ''s-1'') Bound)
              [Request goodCallback, TimerFired]) = Some (Resolved (JStr ''c-1''))"
  by (simp add: run_def startCallbackServer_def handler_def onTimeout_def goodCallback_def
        searchGet_def settle_def serverClose_def reply_def)

section \<open>A callback with another state\<close>

lemma strictEq_JStr: "strictEq v (JStr s) \<longleftrightarrow> v = JStr s"
  by (cases v) simp_all

lemma length_hex: "length (hex bs) = 2 * length bs"
  by (induction bs) (simp_all add: hex_def)

lemma length_randomBytes: "length (fst (randomBytes n src)) = n"
  by (simp add: randomBytes_def)

lemma state_getAuthorizationUrl:
  "state (fst (getAuthorizationUrl sha src))
     = hex (fst (randomBytes 16 (snd (randomBytes 32 src))))"
  by (simp add: getAuthorizationUrl_def generatePKCE_def split_def Let_def)

lemma length_issuedState: "length (issuedState env) = 32"
  by (simp add: issuedState_def state_getAuthorizationUrl length_hex length_randomBytes)

lemma handler_state_mismatch:
  "pathname req = ''/oauth-callback'' \<Longrightarrow> \<not> truthy (searchGet req ''error'') \<Longrightarrow>
   searchGet req ''state'' \<noteq> JStr issued \<Longrightarrow> settled st = None \<Longrightarrow>
     settled (handler (JStr issued) req st) = Some (Rejected (Error ''State mismatch''))"
  by (simp add: handler_def Let_def strictEq_JStr settled_settle)

section \<open>Adding an account whose email is in the ledger\<close>

lemma find_first_match:
  "list_all (\<lambda>x. \<not> P x) pre \<Longrightarrow> P a \<Longrightarrow> List.find P (pre @ a # post) = Some a"
  by (induction pre) simp_all

lemma updateFirst_first_match:
  "list_all (\<lambda>x. \<not> P x) pre \<Longrightarrow> P a \<Longrightarrow> updateFirst P f (pre @ a # post) = pre @ f a # post"
  by (induction pre) simp_all

lemma length_updateFirst [simp]: "length (updateFirst P f xs) = length xs"
  by (induction xs) simp_all

text \<open>
  C4. When the email of the result is (by \<open>===\<close>, so for strings letter by letter and
  case-sensitively) the email of a record of the ledger, \<open>addAccount\<close> changes the first
  such record where it stands: its \<open>refreshToken\<close>, \<open>projectId\<close> and \<open>addedAt\<close> are
  replaced, its other properties and every other record are as before, the ledger has
  the length it had, and the call returns \<open>null\<close>, so that the caller appends nothing.
\<close>

theorem addAccount_updates_in_place:
  assumes "getProp result ''email'' = Inr em"
    and "getProp result ''refreshToken'' = Inr rt"
    and "getProp result ''projectId'' = Inr pid"
    and "list_all (\<lambda>x. \<not> strictEq (email x) em) pre"
    and "strictEq (email a) em"
  shows "addAccountResult (pre @ a # post) result t
           = Inr (pre @ a\<lparr> refreshToken := rt, projectId := pid, addedAt := JStr t \<rparr> # post,
                  None) \<and>
         length (pre @ a\<lparr> refreshToken := rt, projectId := pid, addedAt := JStr t \<rparr> # post)
           = length (pre @ a # post) \<and>
         email (a\<lparr> refreshToken := rt, projectId := pid, addedAt := JStr t \<rparr>) = email a \<and>
         source (a\<lparr> refreshToken := rt, projectId := pid, addedAt := JStr t \<rparr>) = source a \<and>
         lastUsed (a\<lparr> refreshToken := rt, projectId := pid, addedAt := JStr t \<rparr>)
           = lastUsed a \<and>
         isRateLimited (a\<lparr> refreshToken := rt, projectId := pid, addedAt := JStr t \<rparr>)
           = isRateLimited a \<and>
         rateLimitResetTime (a\<lparr> refreshToken := rt, projectId := pid, addedAt := JStr t \<rparr>)
           = rateLimitResetTime a"
  using assms
  by (simp add: addAccountResult_def find_first_match updateFirst_first_match)

theorem addAccount_updates_in_place_witness:
  "addAccountResult ([sampleAccount ''A@example.com''] @ sampleAccount ''a@example.com''
                        # [sampleAccount ''b@example.com''])
     (sampleResult ''a@example.com'') ''2025-01-01T00:00:00.000Z''
   = Inr ([sampleAccount ''A@example.com''] @
          \<lparr> email = JStr ''a@example.com'', source = JStr ''oauth'',
            refreshToken = JStr ''rt-new'', projectId = JNull,
            addedAt = JStr ''2025-01-01T00:00:00.000Z'',
            lastUsed = JNum 1717200000000, isRateLimited = JBool True,
            rateLimitResetTime = JNum 1717203600000 \<rparr>
          # [sampleAccount ''b@example.com''], None)"
proof -
  have e: "getProp (sampleResult ''a@example.com'') ''email'' = Inr (JStr ''a@example.com'')"
    and r: "getProp (sampleResult ''a@example.com'') ''refreshToken'' = Inr (JStr ''rt-new'')"
    and p: "getProp (sampleResult ''a@example.com'') ''projectId'' = Inr JNull"
    by (simp_all add: sampleResult_def)
  have pre: "list_all (\<lambda>x. \<not> strictEq (email x) (JStr ''a@example.com''))
               [sampleAccount ''A@example.com'']"
    by (simp add: sampleAccount_def)
  have hit: "strictEq (email (sampleAccount ''a@example.com'')) (JStr ''a@example.com'')"
    by (simp add: sampleAccount_def)
  have upd: "(sampleAccount ''a@example.com'')
               \<lparr> refreshToken := JStr ''rt-new'', projectId := JNull,
                 addedAt := JStr ''2025-01-01T00:00:00.000Z'' \<rparr>
             = \<lparr> email = JStr ''a@example.com'', source = JStr ''oauth'',
                 refreshToken = JStr ''rt-new'', projectId = JNull,
                 addedAt = JStr ''2025-01-01T00:00:00.000Z'',
                 lastUsed = JNum 1717200000000, isRateLimited = JBool True,
                 rateLimitResetTime = JNum 1717203600000 \<rparr>"
    by (simp add: sampleAccount_def)
  show ?thesis
    using addAccount_updates_in_place [OF e r p pre hit,
            of "[sampleAccount ''b@example.com'']" "''2025-01-01T00:00:00.000Z''"]
    by (simp only: upd)
qed

section \<open>The cap on the ledger\<close>

lemma addAccountResult_length:
  "addAccountResult accs result t = Inr (accs', n) \<Longrightarrow> length accs' = length accs"
  by (auto simp: addAccountResult_def split: sum.splits option.splits)

lemma addAccount_length:
  "addAccount accs env = Some r \<Longrightarrow> length (ledger r) = length accs"
  by (auto simp: addAccount_def split_def Let_def
           split: option.splits outcome.splits sum.splits
           dest: addAccountResult_length)

lemma loadAccounts_disk [simp]: "snd (loadAccounts p disk) = disk"
  by (simp add: loadAccounts_def split: sum.splits option.splits)

lemma loadAccounts_missing: "files disk p = None \<Longrightarrow> loadAccounts p disk = ([], disk)"
  by (simp add: loadAccounts_def loadAccountsTry_def existsSync_def)

lemma loadAccounts_writeFileSync:
  "writeFileSync p (Json \<lparr> accounts = AccountsArray xs, settings = s, activeIndex = i \<rparr>) disk
     = Inr disk' \<Longrightarrow>
   fst (loadAccounts p disk') = xs \<or> fst (loadAccounts p disk') = []"
  by (auto simp: writeFileSync_def loadAccounts_def loadAccountsTry_def existsSync_def
           readFileSync_def
           split: option.splits entry.splits if_splits)

lemma loadAccounts_saveAccounts:
  "saveAccounts p accs given t disk = Inr disk' \<Longrightarrow>
     length (fst (loadAccounts p disk')) \<le> length accs"
proof -
  assume "saveAccounts p accs given t disk = Inr disk'"
  then obtain d where
    "writeFileSync p
       (Json \<lparr> accounts = AccountsArray (map (savedAccount t) accs),
               settings = spread [(''cooldownDurationMs'', JNum 60000),
                                  (''maxRetries'', JNum 5)] given,
               activeIndex = JNum 0 \<rparr>) d = Inr disk'"
    by (auto simp: saveAccounts_def Let_def split: sum.splits)
  from loadAccounts_writeFileSync [OF this] show ?thesis
    by auto
qed

declare addLoop.simps [simp del]

lemma addLoop_full:
  "\<not> length accs < MAX_ACCOUNTS \<Longrightarrow> addLoop p accs disk ts = Returned (accs, disk)"
  by (simp add: addLoop.simps [of p accs disk ts])

lemma addLoop_cap:
  "length accs \<le> MAX_ACCOUNTS \<Longrightarrow> length (fst (loadAccounts p disk)) \<le> MAX_ACCOUNTS \<Longrightarrow>
   addLoop p accs disk ts = Returned (accs', disk') \<or>
   addLoop p accs disk ts = Waiting (accs', disk') \<Longrightarrow>
     length accs' \<le> MAX_ACCOUNTS \<and> length (fst (loadAccounts p disk')) \<le> MAX_ACCOUNTS"
proof (induction ts arbitrary: accs disk)
  case Nil
  then show ?case
    by (auto simp: addLoop.simps [of p accs disk "[]"] split: if_splits)
next
  case (Cons t rest)
  show ?case
  proof (cases "length accs < MAX_ACCOUNTS")
    case False
    with Cons.prems show ?thesis
      by (auto simp: addLoop_full)
  next
    case room: True
    show ?thesis
    proof (cases "addAccount accs (turnFlow t)")
      case None
      with room Cons.prems show ?thesis
        by (auto simp: addLoop.simps [of p accs disk "t # rest"])
    next
      case (Some r)
      define accs1 where
        "accs1 = (case returned r of Some newAccount \<Rightarrow> ledger r @ [newAccount]
                  | None \<Rightarrow> ledger r)"
      define saved where
        "saved = (if returned r \<noteq> None \<or> length accs1 > 0
                  then saveAccounts p accs1 [] (turnSaveTime t) disk else Inr disk)"
      have len1: "length accs1 \<le> MAX_ACCOUNTS"
        using room addAccount_length [OF Some]
        by (simp add: accs1_def split: option.splits)
      have unfold: "addLoop p accs disk (t # rest) =
                      (case saved of
                         Inl e \<Rightarrow> Thrown e
                       | Inr d \<Rightarrow>
                           if length accs1 \<ge> MAX_ACCOUNTS then Returned (accs1, d)
                           else if toLowerCase (turnAnswer t) \<noteq> ''y'' then Returned (accs1, d)
                           else addLoop p accs1 d rest)"
        unfolding accs1_def saved_def using room Some
        by (simp add: addLoop.simps [of p accs disk "t # rest"] Let_def)
      show ?thesis
      proof (cases saved)
        case (Inl e)
        with unfold Cons.prems(3) show ?thesis by simp
      next
        case (Inr d)
        have stored: "length (fst (loadAccounts p d)) \<le> MAX_ACCOUNTS"
        proof (cases "returned r \<noteq> None \<or> length accs1 > 0")
          case True
          with Inr have "saveAccounts p accs1 [] (turnSaveTime t) disk = Inr d"
            by (simp add: saved_def)
          from loadAccounts_saveAccounts [OF this] len1 show ?thesis by linarith
        next
          case False
          with Inr have "d = disk" by (simp add: saved_def)
          with Cons.prems(2) show ?thesis by simp
        qed
        show ?thesis
        proof (cases "length accs1 \<ge> MAX_ACCOUNTS \<or> toLowerCase (turnAnswer t) \<noteq> ''y''")
          case True
          with unfold Inr Cons.prems(3) have "accs' = accs1" "disk' = d"
            by (auto split: if_splits)
          with len1 stored show ?thesis by simp
        next
          case False
          with unfold Inr have "addLoop p accs disk (t # rest) = addLoop p accs1 d rest"
            by simp
          with Cons.prems(3) Cons.IH [OF len1 stored] show ?thesis by simp
        qed
      qed
    qed
  qed
qed

lemma hex_zero_16: "hex (map (\<lambda>i. 0) [0..<16]) = ''00000000000000000000000000000000''"
  by code_simp

lemma issued_eleventh:
  "issuedState (turnFlow eleventhTurn) = ''00000000000000000000000000000000''"
  by (simp add: issuedState_def state_getAuthorizationUrl eleventhTurn_def randomBytes_def
        hex_zero_16 comp_def)

lemma settled_eleventh:
  "settled (run (JStr ''00000000000000000000000000000000'')
      (startCallbackServer (JStr ''00000000000000000000000000000000'') Bound)
      (flowEvents (turnFlow eleventhTurn))) = Some (Resolved (JStr ''c-11''))"
  by (simp add: eleventhTurn_def run_def startCallbackServer_def handler_def onTimeout_def
        searchGet_def settle_def serverClose_def reply_def)

lemma complete_eleventh:
  "completeOAuthFlow eleventhFetch [] [] ''c-11'' v
     = Inr (JObj [(''email'', JStr ''k@example.com''), (''refreshToken'', JStr ''rt-11''),
                  (''accessToken'', JStr ''at-11''), (''projectId'', JNull)])"
  by (simp add: completeOAuthFlow_def exchangeCode_def getUserEmail_def eleventhFetch_def
        exchangeRequest_def userinfoRequest_def GOOGLE_TOKEN_URL_def GOOGLE_USERINFO_URL_def)

lemma result_eleventh:
  "addAccountResult nineAccounts
     (JObj [(''email'', JStr ''k@example.com''), (''refreshToken'', JStr ''rt-11''),
            (''accessToken'', JStr ''at-11''), (''projectId'', JNull)])
     ''2025-01-01T00:00:00.000Z''
   = Inr (nineAccounts, Some eleventhAccount)"
  by (simp add: addAccountResult_def nineAccounts_def sampleAccount_def eleventhAccount_def)

lemma addAccount_eleventh:
  "addAccount nineAccounts (turnFlow eleventhTurn) =
     Some \<lparr> ledger = nineAccounts, returned = Some eleventhAccount,
            oauthCalls = [(''c-11'', verifier (fst (getAuthorizationUrl (\<lambda>bs. []) (\<lambda>i. 0))))] \<rparr>"
proof -
  have f: "flowSha256 (turnFlow eleventhTurn) = (\<lambda>bs. [])"
    "flowEntropy (turnFlow eleventhTurn) = (\<lambda>i. 0)"
    "flowBind (turnFlow eleventhTurn) = Bound"
    "flowFetch (turnFlow eleventhTurn) = eleventhFetch"
    "flowHdrs (turnFlow eleventhTurn) = []"
    "flowEndpoints (turnFlow eleventhTurn) = []"
    "flowNow (turnFlow eleventhTurn) = ''2025-01-01T00:00:00.000Z''"
    by (simp_all add: eleventhTurn_def)
  show ?thesis
    using settled_eleventh issued_eleventh
    by (simp add: addAccount_def split_def Let_def issuedState_def f complete_eleventh
          result_eleventh)
qed

lemma dirname_storePath: "dirname storePath = ''/home/u/.config/antigravity-proxy''"
  by (simp add: dirname_def storePath_def)

lemma load_diskWith: "loadAccounts storePath (diskWith accs) = (accs, diskWith accs)"
  by (simp add: loadAccounts_def loadAccountsTry_def existsSync_def readFileSync_def
        diskWith_def)

lemma length_nineAccounts: "length nineAccounts = 9"
  by (simp add: nineAccounts_def)

lemma length_tenAccounts: "length tenAccounts = 10"
  by (simp add: tenAccounts_def length_nineAccounts)

lemma saveAccounts_existing:
  "files disk (dirname p) \<noteq> None \<Longrightarrow>
     saveAccounts p accs given t disk =
       writeFileSync p
         (Json \<lparr> accounts = AccountsArray (map (savedAccount t) accs),
                 settings = spread [(''cooldownDurationMs'', JNum 60000),
                                    (''maxRetries'', JNum 5)] given,
                 activeIndex = JNum 0 \<rparr>) disk"
  by (cases "files disk (dirname p)") (simp_all add: saveAccounts_def existsSync_def Let_def)

lemma save_diskWith:
  "saveAccounts storePath accs [] t (diskWith old) = Inr (diskWith (map (savedAccount t) accs))"
proof -
  have "files (diskWith old) (dirname storePath) \<noteq> None"
    unfolding dirname_storePath by (simp add: diskWith_def storePath_def)
  then show ?thesis
    by (simp add: saveAccounts_existing writeFileSync_def diskWith_def spread_def)
qed

lemma interactiveAdd_nine:
  "interactiveAdd storePath (diskWith nineAccounts) ''a'' [eleventhTurn]
     = Returned (nineAccounts @ [eleventhAccount],
         diskWith (map (savedAccount ''2025-01-01T00:00:01.000Z'')
                     (nineAccounts @ [eleventhAccount])))"
proof -
  have t: "turnSaveTime eleventhTurn = ''2025-01-01T00:00:01.000Z''"
    "turnAnswer eleventhTurn = ''n''"
    by (simp_all add: eleventhTurn_def)
  show ?thesis
    by (simp add: interactiveAdd_def load_diskWith toLowerCase_def length_nineAccounts
          MAX_ACCOUNTS_def addLoop.simps [of _ nineAccounts] addAccount_eleventh
          save_diskWith t)
qed

text \<open>
  C3, as the code has it. If the ledger that \<open>interactiveAdd\<close> loads has at most 10
  records, then the ledger it works on and the ledger of the store file have at most
  10 records whenever it returns or waits for input. When the loaded ledger holds
  exactly 10 records and the user does not start afresh, the loop is not entered:
  \<open>interactiveAdd\<close> returns with the ledger and the file system as they were,
  whatever sign-in would have followed. No flow is started and no error is raised.
\<close>

theorem interactiveAdd_respects_cap:
  "(length (fst (loadAccounts p disk)) \<le> MAX_ACCOUNTS \<and>
    (interactiveAdd p disk c ts = Returned (accs', disk') \<or>
     interactiveAdd p disk c ts = Waiting (accs', disk')) \<longrightarrow>
      length accs' \<le> MAX_ACCOUNTS \<and> length (fst (loadAccounts p disk')) \<le> MAX_ACCOUNTS) \<and>
   (length (fst (loadAccounts p disk)) = MAX_ACCOUNTS \<and> toLowerCase c \<noteq> ''f'' \<longrightarrow>
      interactiveAdd p disk c ts = Returned (fst (loadAccounts p disk), disk))"
proof -
  have cap: "length accs' \<le> MAX_ACCOUNTS \<and> length (fst (loadAccounts p disk')) \<le> MAX_ACCOUNTS"
    if a: "length (fst (loadAccounts p disk)) \<le> MAX_ACCOUNTS"
      and b: "interactiveAdd p disk c ts = Returned (accs', disk') \<or>
              interactiveAdd p disk c ts = Waiting (accs', disk')"
  proof -
    define accs where
      "accs = (if length (fst (loadAccounts p disk)) > 0 \<and> toLowerCase c = ''f'' then []
               else fst (loadAccounts p disk))"
    have eq: "interactiveAdd p disk c ts = addLoop p accs disk ts"
      by (simp add: interactiveAdd_def split_def Let_def accs_def)
    have len: "length accs \<le> MAX_ACCOUNTS"
      using a by (simp add: accs_def)
    from b show ?thesis
      unfolding eq by (rule addLoop_cap [OF len a])
  qed
  have full: "interactiveAdd p disk c ts = Returned (fst (loadAccounts p disk), disk)"
    if "length (fst (loadAccounts p disk)) = MAX_ACCOUNTS" and "toLowerCase c \<noteq> ''f''"
    using that by (simp add: interactiveAdd_def split_def Let_def addLoop_full)
  from cap full show ?thesis by blast
qed

theorem interactiveAdd_respects_cap_witness:
  "length (nineAccounts @ [eleventhAccount]) \<le> MAX_ACCOUNTS \<and>
   length (fst (loadAccounts storePath
                  (diskWith (map (savedAccount ''2025-01-01T00:00:01.000Z'')
                               (nineAccounts @ [eleventhAccount]))))) \<le> MAX_ACCOUNTS \<and>
   interactiveAdd storePath (diskWith tenAccounts) ''n'' [eleventhTurn]
     = Returned (tenAccounts, diskWith tenAccounts)"
proof -
  have nine: "length (fst (loadAccounts storePath (diskWith nineAccounts))) \<le> MAX_ACCOUNTS"
    by (simp add: load_diskWith length_nineAccounts MAX_ACCOUNTS_def)
  have ten: "length (fst (loadAccounts storePath (diskWith tenAccounts))) = MAX_ACCOUNTS"
    by (simp add: load_diskWith length_tenAccounts MAX_ACCOUNTS_def)
  have no: "toLowerCase ''n'' \<noteq> ''f''"
    by (simp add: toLowerCase_def)
  have a: "length (nineAccounts @ [eleventhAccount]) \<le> MAX_ACCOUNTS \<and>
           length (fst (loadAccounts storePath
                  (diskWith (map (savedAccount ''2025-01-01T00:00:01.000Z'')
                               (nineAccounts @ [eleventhAccount]))))) \<le> MAX_ACCOUNTS"
    using interactiveAdd_respects_cap
      [where p = storePath and disk = "diskWith nineAccounts" and c = "''a''"
         and ts = "[eleventhTurn]" and accs' = "nineAccounts @ [eleventhAccount]"
         and disk' = "diskWith (map (savedAccount ''2025-01-01T00:00:01.000Z'')
                                  (nineAccounts @ [eleventhAccount]))"]
      nine interactiveAdd_nine
    by blast
  have b: "interactiveAdd storePath (diskWith tenAccounts) ''n'' [eleventhTurn]
             = Returned (tenAccounts, diskWith tenAccounts)"
    using interactiveAdd_respects_cap
      [where p = storePath and disk = "diskWith tenAccounts" and c = "''n''"
         and ts = "[eleventhTurn]"]
      ten no
    by (simp add: load_diskWith)
  from a b show ?thesis by blast
qed

text \<open>
  The claim as stated fails on a ledger of ten records: the sign-in as an eleventh
  email, which the same turn completes on a ledger of nine, is not rejected with an
  error. \<open>interactiveAdd\<close> returns normally, and the turn is never run.
\<close>

theorem interactiveAdd_full_counterexample:
  "interactiveAdd storePath (diskWith tenAccounts) ''a'' [eleventhTurn]
     = Returned (tenAccounts, diskWith tenAccounts) \<and>
   interactiveAdd storePath (diskWith nineAccounts) ''a'' [eleventhTurn]
     = Returned (nineAccounts @ [eleventhAccount],
         diskWith (map (savedAccount ''2025-01-01T00:00:01.000Z'')
                     (nineAccounts @ [eleventhAccount])))"
proof -
  have "interactiveAdd storePath (diskWith tenAccounts) ''a'' [eleventhTurn]
          = Returned (tenAccounts, diskWith tenAccounts)"
    by (simp add: interactiveAdd_def load_diskWith toLowerCase_def length_tenAccounts
          MAX_ACCOUNTS_def addLoop.simps [of _ tenAccounts])
  with interactiveAdd_nine show ?thesis by simp
qed

section \<open>A callback with another state: what becomes of the flow\<close>

lemma resolved_step:
  "settled (step es st ev) = Some (Resolved code) \<Longrightarrow>
     settled st = Some (Resolved code) \<or>
     (\<exists>req. ev = Request req \<and> pathname req = ''/oauth-callback'' \<and>
        \<not> truthy (searchGet req ''error'') \<and> strictEq (searchGet req ''state'') es \<and>
        searchGet req ''code'' = code)"
proof (cases ev)
  case (Request req)
  assume "settled (step es st ev) = Some (Resolved code)"
  with Request show ?thesis
    by (cases "settled st")
       (auto simp: handler_def Let_def settled_settle split: if_splits)
next
  case TimerFired
  assume "settled (step es st ev) = Some (Resolved code)"
  with TimerFired show ?thesis
    by (cases "settled st") (auto simp: onTimeout_def settled_settle split: if_splits)
qed

lemma resolved_run:
  "settled (run es st evs) = Some (Resolved code) \<Longrightarrow>
     settled st = Some (Resolved code) \<or>
     (\<exists>req. Request req \<in> set evs \<and> pathname req = ''/oauth-callback'' \<and>
        \<not> truthy (searchGet req ''error'') \<and> strictEq (searchGet req ''state'') es \<and>
        searchGet req ''code'' = code)"
proof (induction evs arbitrary: st)
  case Nil
  then show ?case by (simp add: run_Nil)
next
  case (Cons ev evs)
  from Cons.prems have "settled (run es (step es st ev) evs) = Some (Resolved code)"
    by (simp add: run_Cons)
  from Cons.IH [OF this] resolved_step [of es st ev code] show ?case
    by auto
qed

lemma startCallbackServer_not_resolved:
  "settled (startCallbackServer es b) \<noteq> Some (Resolved code)"
  by (cases b) (simp_all add: startCallbackServer_def onServerError_def settled_settle Let_def)

lemma addAccount_oauthCalls:
  "addAccount accs env = Some r \<Longrightarrow> oauthCalls r \<noteq> [] \<Longrightarrow>
     \<exists>code. settled (run (JStr (issuedState env))
                      (startCallbackServer (JStr (issuedState env)) (flowBind env))
                      (flowEvents env)) = Some (Resolved code) \<and>
            oauthCalls r = [(template code,
              verifier (fst (getAuthorizationUrl (flowSha256 env) (flowEntropy env))))]"
  by (auto simp: addAccount_def issuedState_def split_def Let_def
           split: option.splits outcome.splits sum.splits)

lemma verifier_zero:
  "base64url (map (\<lambda>i. 0) [0..<32]) = ''AAAAAAAAAAAAAAAAAAAAAAAAAAAAAAAAAAAAAAAAAAA''"
  by code_simp

lemma verifier_lateForged:
  "verifier (fst (getAuthorizationUrl (flowSha256 lateForgedFlow) (flowEntropy lateForgedFlow)))
     = ''AAAAAAAAAAAAAAAAAAAAAAAAAAAAAAAAAAAAAAAAAAA''"
  by (simp add: getAuthorizationUrl_def generatePKCE_def split_def Let_def lateForgedFlow_def
        randomBytes_def comp_def verifier_zero)

lemma issued_lateForged:
  "issuedState lateForgedFlow = ''00000000000000000000000000000000''"
  by (simp add: issuedState_def state_getAuthorizationUrl lateForgedFlow_def randomBytes_def
        hex_zero_16 comp_def)

lemma settled_lateForged:
  "settled (run (JStr ''00000000000000000000000000000000'')
      (startCallbackServer (JStr ''00000000000000000000000000000000'') Bound)
      (flowEvents lateForgedFlow)) = Some (Resolved (JStr ''c-11''))"
  by (simp add: lateForgedFlow_def forgedCallback_def run_def startCallbackServer_def
        handler_def onTimeout_def searchGet_def settle_def serverClose_def reply_def)

lemma addAccount_lateForged:
  "addAccount [] lateForgedFlow =
     Some \<lparr> ledger = [], returned = Some eleventhAccount,
            oauthCalls = [(''c-11'', ''AAAAAAAAAAAAAAAAAAAAAAAAAAAAAAAAAAAAAAAAAAA'')] \<rparr>"
proof -
  have f: "flowBind lateForgedFlow = Bound"
    "flowFetch lateForgedFlow = eleventhFetch"
    "flowHdrs lateForgedFlow = []"
    "flowEndpoints lateForgedFlow = []"
    "flowNow lateForgedFlow = ''2025-01-01T00:00:00.000Z''"
    by (simp_all add: lateForgedFlow_def)
  have r: "addAccountResult []
     (JObj [(''email'', JStr ''k@example.com''), (''refreshToken'', JStr ''rt-11''),
            (''accessToken'', JStr ''at-11''), (''projectId'', JNull)])
     ''2025-01-01T00:00:00.000Z''
   = Inr ([], Some eleventhAccount)"
    by (simp add: addAccountResult_def eleventhAccount_def)
  show ?thesis
    using settled_lateForged issued_lateForged verifier_lateForged
    by (simp add: addAccount_def split_def Let_def issuedState_def f complete_eleventh r)
qed

text \<open>
  C2, as the code has it. A request on the callback path that reaches the listener
  while the flow is not yet settled, with no (truthy) \<open>error\<close> parameter and a \<open>state\<close>
  parameter that is absent or differs from the state issued with the authorization
  URL, rejects the flow with the error \<open>State mismatch\<close>, whatever happens afterwards,
  and \<open>addAccount\<close> returns \<open>null\<close> with the ledger as it was and without a call of
  \<open>completeOAuthFlow\<close>, so without a token exchange. In every flow, whatever requests
  arrive and in whatever order, a call of \<open>completeOAuthFlow\<close> is made only with the
  code of a request on the callback path that carried the issued state and no error.
  A request with another state that arrives after the flow is settled changes nothing.
\<close>

theorem state_mismatch_rejects_flow:
  "(flowEvents env = pre @ Request req # post \<and>
    settled (run (JStr (issuedState env))
               (startCallbackServer (JStr (issuedState env)) (flowBind env)) pre) = None \<and>
    pathname req = ''/oauth-callback'' \<and>
    \<not> truthy (searchGet req ''error'') \<and>
    searchGet req ''state'' \<noteq> JStr (issuedState env) \<longrightarrow>
      settled (run (JStr (issuedState env))
                 (startCallbackServer (JStr (issuedState env)) (flowBind env)) (flowEvents env))
        = Some (Rejected (Error ''State mismatch'')) \<and>
      addAccount accs env = Some \<lparr> ledger = accs, returned = None, oauthCalls = [] \<rparr>) \<and>
   (addAccount accs env = Some r \<and> oauthCalls r \<noteq> [] \<longrightarrow>
      (\<exists>good. Request good \<in> set (flowEvents env) \<and>
         pathname good = ''/oauth-callback'' \<and>
         \<not> truthy (searchGet good ''error'') \<and>
         searchGet good ''state'' = JStr (issuedState env) \<and>
         oauthCalls r = [(template (searchGet good ''code''),
           verifier (fst (getAuthorizationUrl (flowSha256 env) (flowEntropy env))))]))"
proof -
  let ?es = "JStr (issuedState env)"
  let ?s0 = "startCallbackServer ?es (flowBind env)"
  have rejected: "settled (run ?es ?s0 (flowEvents env)) = Some (Rejected (Error ''State mismatch'')) \<and>
      addAccount accs env = Some \<lparr> ledger = accs, returned = None, oauthCalls = [] \<rparr>"
    if ev: "flowEvents env = pre @ Request req # post"
      and pend: "settled (run ?es ?s0 pre) = None"
      and path: "pathname req = ''/oauth-callback''"
      and noerr: "\<not> truthy (searchGet req ''error'')"
      and mism: "searchGet req ''state'' \<noteq> JStr (issuedState env)"
  proof -
    have "settled (handler ?es req (run ?es ?s0 pre)) = Some (Rejected (Error ''State mismatch''))"
      using path noerr mism pend by (rule handler_state_mismatch)
    then have final: "settled (run ?es ?s0 (flowEvents env))
                        = Some (Rejected (Error ''State mismatch''))"
      by (simp add: ev run_append run_Cons settled_run_stable)
    then have "addAccount accs env = Some \<lparr> ledger = accs, returned = None, oauthCalls = [] \<rparr>"
      by (simp add: addAccount_def issuedState_def split_def Let_def)
    with final show ?thesis by simp
  qed
  have safe: "\<exists>good. Request good \<in> set (flowEvents env) \<and>
         pathname good = ''/oauth-callback'' \<and>
         \<not> truthy (searchGet good ''error'') \<and>
         searchGet good ''state'' = JStr (issuedState env) \<and>
         oauthCalls r = [(template (searchGet good ''code''),
           verifier (fst (getAuthorizationUrl (flowSha256 env) (flowEntropy env))))]"
    if "addAccount accs env = Some r" and "oauthCalls r \<noteq> []"
  proof -
    from addAccount_oauthCalls [OF that] obtain code where
      res: "settled (run ?es ?s0 (flowEvents env)) = Some (Resolved code)"
      and calls: "oauthCalls r = [(template code,
              verifier (fst (getAuthorizationUrl (flowSha256 env) (flowEntropy env))))]"
      by blast
    from resolved_run [OF res] startCallbackServer_not_resolved [of ?es "flowBind env" code]
    obtain good where "Request good \<in> set (flowEvents env)"
      "pathname good = ''/oauth-callback''" "\<not> truthy (searchGet good ''error'')"
      "strictEq (searchGet good ''state'') ?es" "searchGet good ''code'' = code"
      by blast
    with calls show ?thesis
      by (auto simp: strictEq_JStr)
  qed
  from rejected safe show ?thesis
    by blast
qed

theorem state_mismatch_rejects_flow_witness:
  "settled (run (JStr (issuedState forgedFlow))
              (startCallbackServer (JStr (issuedState forgedFlow)) Bound)
              [Request forgedCallback, TimerFired])
     = Some (Rejected (Error ''State mismatch'')) \<and>
   addAccount [] forgedFlow = Some \<lparr> ledger = [], returned = None, oauthCalls = [] \<rparr> \<and>
   (\<exists>good. Request good \<in> set (flowEvents lateForgedFlow) \<and>
      searchGet good ''state'' = JStr (issuedState lateForgedFlow) \<and>
      template (searchGet good ''code'') = ''c-11'')"
proof -
  have ev: "flowEvents forgedFlow = [] @ Request forgedCallback # [TimerFired]"
    by (simp add: forgedFlow_def)
  have bound: "flowBind forgedFlow = Bound"
    by (simp add: forgedFlow_def)
  have pend: "settled (run (JStr (issuedState forgedFlow))
                (startCallbackServer (JStr (issuedState forgedFlow)) (flowBind forgedFlow)) [])
              = None"
    by (simp add: run_Nil bound startCallbackServer_def)
  have path: "pathname forgedCallback = ''/oauth-callback''"
    by (simp add: forgedCallback_def)
  have noerr: "\<not> truthy (searchGet forgedCallback ''error'')"
    by (simp add: forgedCallback_def searchGet_def)
  have "''forged'' \<noteq> issuedState forgedFlow"
  proof
    assume "''forged'' = issuedState forgedFlow"
    then have "length ''forged'' = length (issuedState forgedFlow)"
      by (rule arg_cong)
    then show False
      by (simp add: length_issuedState)
  qed
  then have mism: "searchGet forgedCallback ''state'' \<noteq> JStr (issuedState forgedFlow)"
    by (simp add: forgedCallback_def searchGet_def)
  note first = state_mismatch_rejects_flow
    [where env = forgedFlow and pre = "[]" and req = forgedCallback and post = "[TimerFired]"
       and accs = "[]"]
  have a: "settled (run (JStr (issuedState forgedFlow))
              (startCallbackServer (JStr (issuedState forgedFlow)) Bound)
              [Request forgedCallback, TimerFired])
             = Some (Rejected (Error ''State mismatch'')) \<and>
           addAccount [] forgedFlow = Some \<lparr> ledger = [], returned = None, oauthCalls = [] \<rparr>"
    using first ev pend path noerr mism by (simp add: bound)
  note second = state_mismatch_rejects_flow
    [where env = lateForgedFlow and accs = "[]"
       and r = "\<lparr> ledger = [], returned = Some eleventhAccount,
                  oauthCalls = [(''c-11'', ''AAAAAAAAAAAAAAAAAAAAAAAAAAAAAAAAAAAAAAAAAAA'')] \<rparr>"]
  have b: "\<exists>good. Request good \<in> set (flowEvents lateForgedFlow) \<and>
      searchGet good ''state'' = JStr (issuedState lateForgedFlow) \<and>
      template (searchGet good ''code'') = ''c-11''"
  proof -
    from second [THEN conjunct2] addAccount_lateForged
    obtain good where g: "Request good \<in> set (flowEvents lateForgedFlow)"
      "searchGet good ''state'' = JStr (issuedState lateForgedFlow)"
      and calls: "[(''c-11'', ''AAAAAAAAAAAAAAAAAAAAAAAAAAAAAAAAAAAAAAAAAAA'')]
         = [(template (searchGet good ''code''),
             verifier (fst (getAuthorizationUrl (flowSha256 lateForgedFlow)
                              (flowEntropy lateForgedFlow))))]"
      by auto
    from calls have "template (searchGet good ''code'') = ''c-11''"
      by simp
    with g show ?thesis by blast
  qed
  from a b show ?thesis by blast
qed

text \<open>
  The claim as stated fails for a request with another state that arrives after a
  request with the issued state: the request is on the callback path, carries no
  error and a state that was not issued, and yet the flow stays resolved with the
  code of the first request and \<open>completeOAuthFlow\<close> is called with it.
\<close>

theorem state_mismatch_late_counterexample:
  "Request forgedCallback \<in> set (flowEvents lateForgedFlow) \<and>
   pathname forgedCallback = ''/oauth-callback'' \<and>
   \<not> truthy (searchGet forgedCallback ''error'') \<and>
   searchGet forgedCallback ''state'' \<noteq> JStr (issuedState lateForgedFlow) \<and>
   settled (run (JStr (issuedState lateForgedFlow))
              (startCallbackServer (JStr (issuedState lateForgedFlow)) (flowBind lateForgedFlow))
              (flowEvents lateForgedFlow))
     = Some (Resolved (JStr ''c-11'')) \<and>
   addAccount [] lateForgedFlow =
     Some \<lparr> ledger = [], returned = Some eleventhAccount,
            oauthCalls = [(''c-11'', ''AAAAAAAAAAAAAAAAAAAAAAAAAAAAAAAAAAAAAAAAAAA'')] \<rparr>"
proof -
  have "Request forgedCallback \<in> set (flowEvents lateForgedFlow)"
    by (simp add: lateForgedFlow_def)
  moreover have "pathname forgedCallback = ''/oauth-callback''"
    "\<not> truthy (searchGet forgedCallback ''error'')"
    "searchGet forgedCallback ''state'' \<noteq> JStr (issuedState lateForgedFlow)"
    by (simp_all add: forgedCallback_def searchGet_def issued_lateForged)
  moreover have "settled (run (JStr (issuedState lateForgedFlow))
              (startCallbackServer (JStr (issuedState lateForgedFlow)) (flowBind lateForgedFlow))
              (flowEvents lateForgedFlow)) = Some (Resolved (JStr ''c-11''))"
  proof -
    have "flowBind lateForgedFlow = Bound"
      by (simp add: lateForgedFlow_def)
    with settled_lateForged show ?thesis
      by (simp only: issued_lateForged)
  qed
  ultimately show ?thesis
    using addAccount_lateForged by simp
qed

section \<open>The encodings\<close>

text \<open>
  The encoders agree with the test vectors of RFC 4648, section 10 (without the
  padding), and with \<open>Buffer.from([0xde, 0xad, 0xbe, 0xef]).toString('hex')\<close>.
\<close>

lemma base64url_rfc4648_vectors:
  "base64url (utf8 ''f'') = ''Zg''"
  "base64url (utf8 ''fo'') = ''Zm8''"
  "base64url (utf8 ''foo'') = ''Zm9v''"
  "base64url (utf8 ''foob'') = ''Zm9vYg''"
  "base64url (utf8 ''fooba'') = ''Zm9vYmE''"
  "base64url (utf8 ''foobar'') = ''Zm9vYmFy''"
  "base64url [0xfb, 0xff] = ''-_8''"
  by code_simp+

lemma hex_vector: "hex [0xde, 0xad, 0xbe, 0xef] = ''deadbeef''"
  by code_simp

lemma unat_byte_less: "unat (b :: byte) < 256"
  using unsigned_less [of b, where ?'a = nat] by simp

lemma length_base64urlAlphabet: "length base64urlAlphabet = 64"
  by (simp add: base64urlAlphabet_def)

lemma sextet_mem: "n < 64 \<Longrightarrow> sextet n \<in> set base64urlAlphabet"
  by (simp add: sextet_def length_base64urlAlphabet)

lemma sextet_bounds:
  "unat (a :: byte) div 4 < 64"
  "(unat (a :: byte) mod 4) * 16 < 64"
  "(unat (a :: byte) mod 4) * 16 + unat (b :: byte) div 16 < 64"
  "(unat (b :: byte) mod 16) * 4 < 64"
  "(unat (b :: byte) mod 16) * 4 + unat (c :: byte) div 64 < 64"
  "unat (c :: byte) mod 64 < 64"
  using unat_byte_less [of a] unat_byte_less [of b] unat_byte_less [of c]
  by simp_all

lemma set_base64url: "set (base64url bs) \<subseteq> set base64urlAlphabet"
  by (induction bs rule: base64url.induct) (simp_all add: sextet_mem sextet_bounds)

lemma length_base64url: "length (base64url bs) = (4 * length bs + 2) div 3"
  by (induction bs rule: base64url.induct) simp_all

lemma no_padding: "CHR ''='' \<notin> set base64urlAlphabet"
  by (simp add: base64urlAlphabet_def)

lemma alphabet_unreserved:
  "list_all (\<lambda>c. unreserved c \<and> c \<noteq> CHR '' '') base64urlAlphabet"
  by (simp add: base64urlAlphabet_def unreserved_def isAlnum_def)

lemma urlencode_unreserved:
  "list_all (\<lambda>c. unreserved c \<and> c \<noteq> CHR '' '') s \<Longrightarrow> urlencode s = s"
  by (induction s) (simp_all add: urlencode_def urlencodeChar_def)

lemma hexDigit_mem: "n < 16 \<Longrightarrow> hexDigit n \<in> set ''0123456789abcdef''"
  unfolding hexDigit_def by (rule nth_mem) simp

lemma set_hex: "set (hex bs) \<subseteq> set ''0123456789abcdef''"
proof (induction bs)
  case Nil
  show ?case by (simp add: hex_def)
next
  case (Cons b bs)
  have "unat b div 16 < 16" "unat b mod 16 < 16"
    using unat_byte_less [of b] by simp_all
  then have "hexDigit (unat b div 16) \<in> set ''0123456789abcdef''"
    "hexDigit (unat b mod 16) \<in> set ''0123456789abcdef''"
    by (simp_all only: hexDigit_mem)
  with Cons show ?case
    by (simp add: hex_def)
qed

lemma hexdigits_unreserved:
  "list_all (\<lambda>c. unreserved c \<and> c \<noteq> CHR '' '') ''0123456789abcdef''"
  by (simp add: unreserved_def isAlnum_def)

lemma list_all_subset: "set xs \<subseteq> set ys \<Longrightarrow> list_all P ys \<Longrightarrow> list_all P xs"
  by (auto simp: list_all_iff)

lemma urlencode_base64url: "urlencode (base64url bs) = base64url bs"
  by (rule urlencode_unreserved) (rule list_all_subset [OF set_base64url alphabet_unreserved])

lemma urlencode_hex: "urlencode (hex bs) = hex bs"
  by (rule urlencode_unreserved) (rule list_all_subset [OF set_hex hexdigits_unreserved])

lemma enc_consts:
  "urlencode GOOGLE_CLIENT_ID = ''1071006060591-tmhssin2h21lcre235vtolojh4g403ep.apps.googleusercontent.com''"
  "urlencode REDIRECT_URI = ''http%3A%2F%2Flocalhost%3A51121%2Foauth-callback''"
  "urlencode SCOPES = ''https%3A%2F%2Fwww.googleapis.com%2Fauth%2Fcloud-platform+https%3A%2F%2Fwww.googleapis.com%2Fauth%2Fuserinfo.email+https%3A%2F%2Fwww.googleapis.com%2Fauth%2Fuserinfo.profile+https%3A%2F%2Fwww.googleapis.com%2Fauth%2Fcclog+https%3A%2F%2Fwww.googleapis.com%2Fauth%2Fexperimentsandconfigs''"
  by code_simp+

lemma enc_words:
  "urlencode ''client_id'' = ''client_id''"
  "urlencode ''redirect_uri'' = ''redirect_uri''"
  "urlencode ''response_type'' = ''response_type''"
  "urlencode ''code'' = ''code''"
  "urlencode ''scope'' = ''scope''"
  "urlencode ''access_type'' = ''access_type''"
  "urlencode ''offline'' = ''offline''"
  "urlencode ''prompt'' = ''prompt''"
  "urlencode ''consent'' = ''consent''"
  "urlencode ''code_challenge'' = ''code_challenge''"
  "urlencode ''code_challenge_method'' = ''code_challenge_method''"
  "urlencode ''S256'' = ''S256''"
  "urlencode ''state'' = ''state''"
  by code_simp+

section \<open>The query the serialiser writes\<close>

lemma splitOn_single: "sep \<notin> set a \<Longrightarrow> splitOn sep a = [a]"
  by (induction a) auto

lemma splitOn_append: "sep \<notin> set a \<Longrightarrow> splitOn sep (a @ sep # rest) = a # splitOn sep rest"
  by (induction a) auto

lemma splitOn_joinWith:
  "segs \<noteq> [] \<Longrightarrow> list_all (\<lambda>s. sep \<notin> set s) segs \<Longrightarrow> splitOn sep (joinWith sep segs) = segs"
  by (induction sep segs rule: joinWith.induct) (simp_all add: splitOn_single splitOn_append)

lemma of_char_less: "(of_char c :: nat) < 256"
  by (cases c) (simp add: of_char_def)

lemma upperHexDigit_mem: "n < 16 \<Longrightarrow> upperHexDigit n \<in> set ''0123456789ABCDEF''"
  unfolding upperHexDigit_def by (rule nth_mem) simp

lemma urlencodeChar_plain:
  "x \<in> set (urlencodeChar c) \<Longrightarrow> x \<noteq> CHR ''&'' \<and> x \<noteq> CHR ''=''"
proof -
  assume x: "x \<in> set (urlencodeChar c)"
  have d: "(of_char c :: nat) div 16 < 16" "(of_char c :: nat) mod 16 < 16"
    using of_char_less [of c] by arith+
  have h: "list_all (\<lambda>y. y \<noteq> CHR ''&'' \<and> y \<noteq> CHR ''='') ''0123456789ABCDEF''"
    by simp
  have u: "\<not> unreserved (CHR ''&'')" "\<not> unreserved (CHR ''='')"
    by (simp_all add: unreserved_def isAlnum_def)
  from x consider "x = CHR ''+''" | "x = c \<and> unreserved c" | "x = CHR ''%''"
    | "x = upperHexDigit ((of_char c :: nat) div 16)"
    | "x = upperHexDigit ((of_char c :: nat) mod 16)"
    by (auto simp: urlencodeChar_def split: if_splits)
  then show ?thesis
  proof cases
    case 2
    with u show ?thesis by auto
  next
    case 4
    with upperHexDigit_mem [OF d(1)] h show ?thesis by (auto simp: list_all_iff)
  next
    case 5
    with upperHexDigit_mem [OF d(2)] h show ?thesis by (auto simp: list_all_iff)
  qed simp_all
qed

lemma urlencode_plain: "CHR ''&'' \<notin> set (urlencode s)" "CHR ''='' \<notin> set (urlencode s)"
  using urlencodeChar_plain by (auto simp: urlencode_def)

lemma takeWhile_sep: "sep \<notin> set a \<Longrightarrow> takeWhile (\<lambda>c. c \<noteq> sep) (a @ sep # b) = a"
  by (induction a) auto

lemma dropWhile_sep: "sep \<notin> set a \<Longrightarrow> dropWhile (\<lambda>c. c \<noteq> sep) (a @ sep # b) = sep # b"
  by (induction a) auto

lemma nameValue_pair: "nameValue (urlencode k @ CHR ''='' # urlencode v) = (urlencode k, urlencode v)"
  by (simp add: nameValue_def urlencode_plain takeWhile_sep dropWhile_sep)

lemma parse_searchParams:
  "ps \<noteq> [] \<Longrightarrow> map nameValue (splitOn (CHR ''&'') (searchParamsToString ps))
      = map (\<lambda>(k, v). (urlencode k, urlencode v)) ps"
proof -
  assume ne: "ps \<noteq> []"
  let ?segs = "map (\<lambda>(k, v). urlencode k @ CHR ''='' # urlencode v) ps"
  have "list_all (\<lambda>s. CHR ''&'' \<notin> set s) ?segs"
    by (auto simp: list_all_iff urlencode_plain)
  with ne have "splitOn (CHR ''&'') (joinWith (CHR ''&'') ?segs) = ?segs"
    by (simp add: splitOn_joinWith)
  then show ?thesis
    by (simp add: searchParamsToString_def nameValue_pair split_def comp_def)
qed

lemma queryString_auth: "queryString (GOOGLE_AUTH_URL @ ''?'' @ q) = q"
  by (simp add: queryString_def GOOGLE_AUTH_URL_def)

section \<open>The PKCE pair\<close>

text \<open>
  C5. For every SHA-256 and every state of the random source, the challenge that
  \<open>generatePKCE\<close> returns is the base64url encoding of the hash of the verifier's
  bytes; it is made of characters of the URL-safe alphabet only and has no padding
  character \<open>=\<close>. The verifier is the base64url encoding of the next 32 bytes of the
  random source: 43 characters of the same alphabet, without padding.
\<close>

theorem generatePKCE_S256:
  "snd (fst (generatePKCE sha src))
     = base64url (sha (utf8 (fst (fst (generatePKCE sha src))))) \<and>
   CHR ''='' \<notin> set (snd (fst (generatePKCE sha src))) \<and>
   set (snd (fst (generatePKCE sha src))) \<subseteq> set base64urlAlphabet \<and>
   fst (fst (generatePKCE sha src)) = base64url (fst (randomBytes 32 src)) \<and>
   length (fst (randomBytes 32 src)) = 32 \<and>
   CHR ''='' \<notin> set (fst (fst (generatePKCE sha src))) \<and>
   set (fst (fst (generatePKCE sha src))) \<subseteq> set base64urlAlphabet \<and>
   length (fst (fst (generatePKCE sha src))) = 43"
proof -
  have v: "fst (fst (generatePKCE sha src)) = base64url (fst (randomBytes 32 src))"
    by (simp add: generatePKCE_def split_def Let_def)
  have c: "snd (fst (generatePKCE sha src))
             = base64url (sha (utf8 (fst (fst (generatePKCE sha src)))))"
    by (simp add: generatePKCE_def split_def Let_def)
  have n: "CHR ''='' \<notin> set (base64url bs)" for bs
    using set_base64url [of bs] no_padding by blast
  have l: "length (base64url (fst (randomBytes 32 src))) = 43"
    by (simp add: length_base64url length_randomBytes)
  show ?thesis
    using c n [of "sha (utf8 (fst (fst (generatePKCE sha src))))"]
      set_base64url [of "sha (utf8 (fst (fst (generatePKCE sha src))))"]
      v n [of "fst (randomBytes 32 src)"] set_base64url [of "fst (randomBytes 32 src)"] l
    by (simp add: length_randomBytes)
qed

section \<open>The authorization URL\<close>

lemma url_getAuthorizationUrl:
  "url (fst (getAuthorizationUrl sha src))
     = GOOGLE_AUTH_URL @ ''?'' @
       searchParamsToString
         (authorizationParams (snd (fst (generatePKCE sha src)))
            (state (fst (getAuthorizationUrl sha src))))"
  by (simp add: getAuthorizationUrl_def split_def Let_def)

lemma challenge_generatePKCE:
  "snd (fst (generatePKCE sha src))
     = base64url (sha (utf8 (base64url (fst (randomBytes 32 src)))))"
  by (simp add: generatePKCE_def split_def Let_def)

text \<open>
  C8. Every URL that \<open>getAuthorizationUrl\<close> returns has the query parameters
  \<open>code_challenge_method=S256\<close>, \<open>access_type=offline\<close> and \<open>prompt=consent\<close>, and a
  parameter \<open>state\<close> whose value is the state returned with the URL. The URL is the
  authorization endpoint followed by the nine parameters in the order of the source.
\<close>

theorem getAuthorizationUrl_parameters:
  "queryParam (url (fst (getAuthorizationUrl sha src))) ''code_challenge_method'' = Some ''S256'' \<and>
   queryParam (url (fst (getAuthorizationUrl sha src))) ''access_type'' = Some ''offline'' \<and>
   queryParam (url (fst (getAuthorizationUrl sha src))) ''prompt'' = Some ''consent'' \<and>
   queryParam (url (fst (getAuthorizationUrl sha src))) ''state''
     = Some (state (fst (getAuthorizationUrl sha src))) \<and>
   url (fst (getAuthorizationUrl sha src)) =
     GOOGLE_AUTH_URL @ ''?'' @
     ''client_id=1071006060591-tmhssin2h21lcre235vtolojh4g403ep.apps.googleusercontent.com'' @
     ''&redirect_uri=http%3A%2F%2Flocalhost%3A51121%2Foauth-callback'' @
     ''&response_type=code'' @
     ''&scope=https%3A%2F%2Fwww.googleapis.com%2Fauth%2Fcloud-platform+https%3A%2F%2Fwww.googleapis.com%2Fauth%2Fuserinfo.email+https%3A%2F%2Fwww.googleapis.com%2Fauth%2Fuserinfo.profile+https%3A%2F%2Fwww.googleapis.com%2Fauth%2Fcclog+https%3A%2F%2Fwww.googleapis.com%2Fauth%2Fexperimentsandconfigs'' @
     ''&access_type=offline'' @
     ''&prompt=consent'' @
     ''&code_challenge='' @ snd (fst (generatePKCE sha src)) @
     ''&code_challenge_method=S256'' @
     ''&state='' @ state (fst (getAuthorizationUrl sha src))"
proof -
  let ?u = "url (fst (getAuthorizationUrl sha src))"
  let ?ch = "snd (fst (generatePKCE sha src))"
  let ?st = "state (fst (getAuthorizationUrl sha src))"
  have st: "urlencode ?st = ?st"
    by (simp add: state_getAuthorizationUrl urlencode_hex)
  have ch: "urlencode ?ch = ?ch"
    by (simp add: challenge_generatePKCE urlencode_base64url)
  have ne: "authorizationParams ?ch ?st \<noteq> []"
    by (simp add: authorizationParams_def)
  have pairs: "map nameValue (splitOn (CHR ''&'') (queryString ?u))
                 = map (\<lambda>(k, v). (urlencode k, urlencode v)) (authorizationParams ?ch ?st)"
    by (simp only: url_getAuthorizationUrl queryString_auth parse_searchParams [OF ne])
  have look: "queryParam ?u ''code_challenge_method'' = Some ''S256''"
    "queryParam ?u ''access_type'' = Some ''offline''"
    "queryParam ?u ''prompt'' = Some ''consent''"
    "queryParam ?u ''state'' = Some ?st"
    unfolding queryParam_def pairs
    by (simp_all add: authorizationParams_def enc_words st)
  have written: "searchParamsToString (authorizationParams ?ch ?st) =
     ''client_id=1071006060591-tmhssin2h21lcre235vtolojh4g403ep.apps.googleusercontent.com'' @
     ''&redirect_uri=http%3A%2F%2Flocalhost%3A51121%2Foauth-callback'' @
     ''&response_type=code'' @
     ''&scope=https%3A%2F%2Fwww.googleapis.com%2Fauth%2Fcloud-platform+https%3A%2F%2Fwww.googleapis.com%2Fauth%2Fuserinfo.email+https%3A%2F%2Fwww.googleapis.com%2Fauth%2Fuserinfo.profile+https%3A%2F%2Fwww.googleapis.com%2Fauth%2Fcclog+https%3A%2F%2Fwww.googleapis.com%2Fauth%2Fexperimentsandconfigs'' @
     ''&access_type=offline'' @
     ''&prompt=consent'' @
     ''&code_challenge='' @ ?ch @
     ''&code_challenge_method=S256'' @
     ''&state='' @ ?st"
    by (simp add: searchParamsToString_def authorizationParams_def enc_consts enc_words st ch)
  have whole: "?u = GOOGLE_AUTH_URL @ ''?'' @ searchParamsToString (authorizationParams ?ch ?st)"
    by (rule url_getAuthorizationUrl)
  from look whole written show ?thesis
    by (simp only:)
qed

section \<open>Loading the store\<close>

text \<open>
  C7, as the code has it. \<open>loadAccounts\<close> returns the empty ledger, and no error, when
  there is no file at the store's path, and it leaves the file system as it found it:
  it reads one path and writes none, so it copies no file from another location.
\<close>

theorem loadAccounts_absent:
  "snd (loadAccounts p disk) = disk \<and>
   (files disk p = None \<longrightarrow> loadAccounts p disk = ([], disk))"
  by (simp add: loadAccounts_missing)

theorem loadAccounts_absent_witness:
  "snd (loadAccounts storePath legacyDisk) = legacyDisk \<and>
   loadAccounts storePath legacyDisk = ([], legacyDisk)"
proof -
  have "files legacyDisk storePath = None"
    by (simp add: legacyDisk_def legacyPath_def storePath_def)
  with loadAccounts_absent [of storePath legacyDisk] show ?thesis
    by simp
qed

text \<open>
  The claim as stated fails where a ledger lies at an older location and none at the
  store's path: after \<open>loadAccounts\<close> there is still no file at the store's path, and
  the ledger returned is empty.
\<close>

theorem loadAccounts_migration_counterexample:
  "files legacyDisk legacyPath
     = Some (File True True (Json \<lparr> accounts = AccountsArray tenAccounts, settings = [],
                                     activeIndex = JNum 0 \<rparr>)) \<and>
   files legacyDisk storePath = None \<and>
   files (snd (loadAccounts storePath legacyDisk)) storePath = None \<and>
   fst (loadAccounts storePath legacyDisk) = []"
  by (simp add: legacyDisk_def legacyPath_def storePath_def loadAccounts_def
        loadAccountsTry_def existsSync_def)

lemma loadAccounts_corrupt_empty:
  "files disk p = Some e \<Longrightarrow> corrupt e \<Longrightarrow> loadAccounts p disk = ([], disk)"
proof (cases e)
  case Directory
  then show "files disk p = Some e \<Longrightarrow> loadAccounts p disk = ([], disk)"
    by (simp add: loadAccounts_def loadAccountsTry_def existsSync_def readFileSync_def)
next
  case (File r w c)
  then show "files disk p = Some e \<Longrightarrow> corrupt e \<Longrightarrow> loadAccounts p disk = ([], disk)"
    by (cases c)
       (auto simp: loadAccounts_def loadAccountsTry_def existsSync_def readFileSync_def
             split: accounts_field.splits)
qed

text \<open>
  C10, as the code has it. When the store exists and cannot be read, is not JSON, is
  the JSON \<open>null\<close> or parses to a value without \<open>accounts\<close>, \<open>loadAccounts\<close> returns
  the empty ledger and throws nothing: the same ledger as for a store that is absent
  and for a store that holds no account. A \<open>saveAccounts\<close> that follows replaces the
  file by the store it writes, whatever the file held, when the process may write the
  file; when a directory lies at the path or the process may not write the file, the
  save throws instead (\<open>EISDIR\<close>, \<open>EACCES\<close>) and replaces nothing.
\<close>

theorem loadAccounts_corrupt:
  assumes "files disk p = Some e" and "corrupt e" and "files disk (dirname p) \<noteq> None"
  shows "loadAccounts p disk = ([], disk) \<and>
         fst (loadAccounts p disk) = fst (loadAccounts p (disk\<lparr> files := (files disk)(p := None) \<rparr>)) \<and>
         fst (loadAccounts p disk)
           = fst (loadAccounts p (disk\<lparr> files := (files disk)
                    (p \<mapsto> File True True
                           (Json \<lparr> accounts = AccountsArray [], settings = s,
                                   activeIndex = i \<rparr>)) \<rparr>)) \<and>
         (e = File r True c \<longrightarrow>
            saveAccounts p accs given t (snd (loadAccounts p disk))
              = Inr (disk\<lparr> files := (files disk)
                       (p \<mapsto> File r True
                              (Json \<lparr> accounts = AccountsArray (map (savedAccount t) accs),
                                      settings = spread [(''cooldownDurationMs'', JNum 60000),
                                                         (''maxRetries'', JNum 5)] given,
                                      activeIndex = JNum 0 \<rparr>)) \<rparr>)) \<and>
         (e = File r False c \<longrightarrow>
            saveAccounts p accs given t (snd (loadAccounts p disk))
              = Inl (SystemError ''EACCES'')) \<and>
         (e = Directory \<longrightarrow>
            saveAccounts p accs given t (snd (loadAccounts p disk))
              = Inl (SystemError ''EISDIR''))"
proof -
  have empty: "loadAccounts p disk = ([], disk)"
    using assms(1,2) by (rule loadAccounts_corrupt_empty)
  have absent: "fst (loadAccounts p (disk\<lparr> files := (files disk)(p := None) \<rparr>)) = []"
    by (simp add: loadAccounts_missing)
  have none: "fst (loadAccounts p (disk\<lparr> files := (files disk)
                (p \<mapsto> File True True
                       (Json \<lparr> accounts = AccountsArray [], settings = s,
                               activeIndex = i \<rparr>)) \<rparr>)) = []"
    by (simp add: loadAccounts_def loadAccountsTry_def existsSync_def readFileSync_def)
  have save: "saveAccounts p accs given t disk =
       writeFileSync p
         (Json \<lparr> accounts = AccountsArray (map (savedAccount t) accs),
                 settings = spread [(''cooldownDurationMs'', JNum 60000),
                                    (''maxRetries'', JNum 5)] given,
                 activeIndex = JNum 0 \<rparr>) disk"
    using assms(3) by (rule saveAccounts_existing)
  show ?thesis
    using assms(1) by (simp add: empty absent none save writeFileSync_def)
qed

theorem loadAccounts_corrupt_witness:
  "loadAccounts storePath brokenDisk = ([], brokenDisk) \<and>
   saveAccounts storePath [eleventhAccount] [] ''2025-01-01T00:00:01.000Z''
       (snd (loadAccounts storePath brokenDisk))
     = Inr (diskWith [savedAccount ''2025-01-01T00:00:01.000Z'' eleventhAccount]) \<and>
   loadAccounts storePath lockedDisk = ([], lockedDisk) \<and>
   loadAccounts storePath directoryDisk = ([], directoryDisk)"
proof -
  have d: "dirname storePath = ''/home/u/.config/antigravity-proxy''"
    by (rule dirname_storePath)
  have b: "files brokenDisk storePath = Some (File True True NotJson)"
    "files brokenDisk (dirname storePath) \<noteq> None"
    unfolding d by (simp_all add: brokenDisk_def storePath_def)
  have l: "files lockedDisk storePath = Some (File False False NotJson)"
    "files lockedDisk (dirname storePath) \<noteq> None"
    unfolding d by (simp_all add: lockedDisk_def storePath_def)
  have y: "files directoryDisk storePath = Some Directory"
    "files directoryDisk (dirname storePath) \<noteq> None"
    unfolding d by (simp_all add: directoryDisk_def storePath_def)
  have same: "brokenDisk\<lparr> files := (files brokenDisk)
                 (storePath \<mapsto> File True True
                    (Json \<lparr> accounts = AccountsArray
                              (map (savedAccount ''2025-01-01T00:00:01.000Z'') [eleventhAccount]),
                            settings = spread [(''cooldownDurationMs'', JNum 60000),
                                               (''maxRetries'', JNum 5)] [],
                            activeIndex = JNum 0 \<rparr>)) \<rparr>
              = diskWith [savedAccount ''2025-01-01T00:00:01.000Z'' eleventhAccount]"
    by (simp add: brokenDisk_def diskWith_def spread_def)
  have c: "corrupt (File True True NotJson)" "corrupt (File False False NotJson)"
    "corrupt Directory"
    by simp_all
  note broken = loadAccounts_corrupt [OF b(1) c(1) b(2), where r = True and c = NotJson
      and accs = "[eleventhAccount]" and given = "[]" and t = "''2025-01-01T00:00:01.000Z''"]
  note locked = loadAccounts_corrupt [OF l(1) c(2) l(2)]
  note dir = loadAccounts_corrupt [OF y(1) c(3) y(2)]
  from broken locked dir same show ?thesis
    by simp
qed

text \<open>
  The claim as stated fails for a store that cannot be read because the process has no
  permission on the file, and for one at whose path a directory lies: \<open>loadAccounts\<close>
  returns the empty ledger, and the \<open>saveAccounts\<close> that follows throws and overwrites
  nothing.
\<close>

theorem saveAccounts_unreadable_counterexample:
  "loadAccounts storePath lockedDisk = ([], lockedDisk) \<and>
   saveAccounts storePath [eleventhAccount] [] ''2025-01-01T00:00:01.000Z'' lockedDisk
     = Inl (SystemError ''EACCES'') \<and>
   loadAccounts storePath directoryDisk = ([], directoryDisk) \<and>
   saveAccounts storePath [eleventhAccount] [] ''2025-01-01T00:00:01.000Z'' directoryDisk
     = Inl (SystemError ''EISDIR'')"
proof -
  have "files lockedDisk (dirname storePath) \<noteq> None"
    "files directoryDisk (dirname storePath) \<noteq> None"
    unfolding dirname_storePath
    by (simp_all add: lockedDisk_def directoryDisk_def storePath_def)
  then show ?thesis
    by (simp add: saveAccounts_existing writeFileSync_def loadAccounts_def loadAccountsTry_def
          existsSync_def readFileSync_def lockedDisk_def directoryDisk_def)
qed


end
